theory Spec2Isabelle
  imports Complex_Main "HOL-Library.Char_ord" "HOL-Library.List_Lexorder"
begin

section \<open>Canteen analytics engine: the embedding of \<open>analytics.py\<close>\<close>

text \<open>
  The theory embeds class \<open>AnalyticsEngine\<close> of \<open>analytics.py\<close>. The engine works on the
  pandas table returned by \<open>DataManager.load_sales_data\<close>; the table is a list of rows here
  (the row order is the storage order), and every pandas operation the engine calls is a
  list function defined below after the library's documented behaviour.

  Conventions of the model:
  \<^item> A cell of a numeric column holds a finite number: \<open>quantity_sold\<close> and
    \<open>waste_quantity\<close> are integers, the monetary columns are rationals. A float64 is an
    exact rational or one of the three special values of IEEE arithmetic (\<open>fval\<close>); the
    rounding error of binary floating point is not modelled, and missing cells are not
    part of the model.
  \<^item> A table with at least one row has numeric columns, and a sum of a column is a
    numpy number. The table without rows, which \<open>load_sales_data\<close> reads from a sheet
    that has only the header line, has columns of dtype \<open>object\<close>; the sum of such a
    column is the Python integer 0, and dividing by it raises.
  \<^item> A point in time (\<open>datetime\<close>, pandas \<open>Timestamp\<close>) is the integer number of
    microseconds since 1970-01-01 00:00:00 of the naive local calendar. Python's
    \<open>datetime\<close> covers the years 1 to 9999 and \<open>timedelta\<close> at most 999999999 days;
    arithmetic that leaves these ranges raises \<open>OverflowError\<close>. A column of dates
    compares with every \<open>datetime\<close> of that range.
  \<^item> \<open>datetime.now()\<close> reads the system clock. The clock is the function \<open>clock\<close>:
    \<open>clock k\<close> is what the \<open>k\<close>-th call of \<open>datetime.now()\<close> within one method call
    returns (counting from 0).
  \<^item> \<open>sort_values\<close> is called with the default \<open>kind='quicksort'\<close>, which fixes the order
    of the keys and not the relative order of rows with equal keys. The array sort of
    numpy is therefore a parameter \<open>asrt\<close> (an argsort: it returns the positions of the
    keys in sorted order), constrained by \<open>valid_argsort\<close> only.
\<close>

subsection \<open>Float values\<close>

datatype fval = Fin rat | PInf | NInf | NaN

text \<open>True division of two finite numbers as numpy does it: no exception for a zero
  divisor; the quotient is infinite, or NaN for \<open>0 / 0\<close>.\<close>

definition np_div :: "rat \<Rightarrow> rat \<Rightarrow> fval" where
  "np_div a b =
     (if b = 0 then (if 0 < a then PInf else if a < 0 then NInf else NaN)
      else Fin (a / b))"

text \<open>\<open>x * 100\<close>.\<close>

fun times100 :: "fval \<Rightarrow> fval" where
  "times100 (Fin x) = Fin (x * 100)"
| "times100 PInf = PInf"
| "times100 NInf = NInf"
| "times100 NaN = NaN"

text \<open>\<open>x > c\<close> for a finite constant \<open>c\<close>: every comparison with NaN is false.\<close>

fun fgt :: "fval \<Rightarrow> rat \<Rightarrow> bool" where
  "fgt (Fin x) c = (c < x)"
| "fgt PInf c = True"
| "fgt NInf c = False"
| "fgt NaN c = False"

text \<open>\<open>a < q\<close> for a finite \<open>a\<close>.\<close>

fun lt_fval :: "rat \<Rightarrow> fval \<Rightarrow> bool" where
  "lt_fval a (Fin x) = (a < x)"
| "lt_fval a PInf = True"
| "lt_fval a NInf = False"
| "lt_fval a NaN = False"

text \<open>\<open>round(2)\<close>: numpy rounds \<open>x * 100\<close> to the nearest integer, a tie to the even
  one, and divides by 100.\<close>

definition round_half_even :: "rat \<Rightarrow> int" where
  "round_half_even y =
     (let f = \<lfloor>y\<rfloor>; d = y - of_int f
      in if d < 1 / 2 then f
         else if 1 / 2 < d then f + 1
         else if even f then f else f + 1)"

definition round2 :: "rat \<Rightarrow> rat" where
  "round2 x = of_int (round_half_even (x * 100)) / 100"

datatype error = ValueError | OverflowError | ZeroDivisionError

text \<open>Python's \<open>int(x)\<close> on a float: truncation towards zero; NaN and the infinities
  raise.\<close>

fun py_int :: "fval \<Rightarrow> error + int" where
  "py_int (Fin x) = Inr (if 0 \<le> x then \<lfloor>x\<rfloor> else \<lceil>x\<rceil>)"
| "py_int NaN = Inl ValueError"
| "py_int PInf = Inl OverflowError"
| "py_int NInf = Inl OverflowError"

subsection \<open>The ledger\<close>

record sales_record =
  date :: int
  day_of_week :: string
  menu_item :: string
  quantity_sold :: int
  price :: rat
  revenue :: rat
  waste_quantity :: int
  waste_cost :: rat
  is_weekday :: bool

type_synonym ledger = "sales_record list"

subsection \<open>The pandas operations the engine uses\<close>

text \<open>\<open>groupby(key)\<close>: one group per distinct key, the groups in ascending key order, the
  rows of a group in table order.\<close>

definition group_keys :: "('r \<Rightarrow> 'k::linorder) \<Rightarrow> 'r list \<Rightarrow> 'k list" where
  "group_keys key rows = sort (remdups (map key rows))"

definition group_rows :: "('r \<Rightarrow> 'k) \<Rightarrow> 'r list \<Rightarrow> 'k \<Rightarrow> 'r list" where
  "group_rows key rows k = filter (\<lambda>r. key r = k) rows"

definition col_sum :: "('r \<Rightarrow> rat) \<Rightarrow> 'r list \<Rightarrow> rat" where
  "col_sum f rows = sum_list (map f rows)"

text \<open>\<open>mean()\<close> of a series: NaN for the empty series.\<close>

definition series_mean :: "rat list \<Rightarrow> fval" where
  "series_mean xs = (if xs = [] then NaN else Fin (sum_list xs / of_nat (length xs)))"

text \<open>The mean of a group, which is never empty.\<close>

definition col_mean :: "('r \<Rightarrow> rat) \<Rightarrow> 'r list \<Rightarrow> rat" where
  "col_mean f rows = sum_list (map f rows) / of_nat (length rows)"

text \<open>\<open>tail(n)\<close>: the last \<open>n\<close> entries.\<close>

definition tail :: "nat \<Rightarrow> 'a list \<Rightarrow> 'a list" where
  "tail n xs = drop (length xs - n) xs"

text \<open>What the engine needs of numpy's \<open>argsort\<close>: the result lists every position once
  and reads the keys in ascending order.\<close>

definition valid_argsort :: "(rat list \<Rightarrow> nat list) \<Rightarrow> bool" where
  "valid_argsort asrt \<longleftrightarrow>
     (\<forall>ks. length (asrt ks) = length ks \<and> set (asrt ks) = {..<length ks} \<and>
           sorted (map (\<lambda>i. ks ! i) (asrt ks)))"

text \<open>pandas' \<open>nargsort\<close> on keys without NaN: for a descending sort it reverses the keys
  and the positions, sorts ascending, and reverses the result.\<close>

definition nargsort :: "(rat list \<Rightarrow> nat list) \<Rightarrow> rat list \<Rightarrow> bool \<Rightarrow> nat list" where
  "nargsort asrt ks ascending =
     (if ascending then asrt ks
      else rev (map (\<lambda>j. length ks - 1 - j) (asrt (rev ks))))"

definition sort_values :: "(rat list \<Rightarrow> nat list) \<Rightarrow> ('r \<Rightarrow> rat) \<Rightarrow> bool \<Rightarrow> 'r list \<Rightarrow> 'r list" where
  "sort_values asrt key ascending rows =
     map (\<lambda>i. rows ! i) (nargsort asrt (map key rows) ascending)"

text \<open>A stable array sort, as one instance of the parameter.\<close>

definition stable_argsort :: "rat list \<Rightarrow> nat list" where
  "stable_argsort ks = sort_key (\<lambda>i. ks ! i) [0..<length ks]"

text \<open>\<open>quantile(q)\<close> with the default linear interpolation between the order statistics
  at \<open>\<lfloor>q * (n - 1)\<rfloor>\<close> and the next position; NaN for an empty series.\<close>

definition quantile :: "rat \<Rightarrow> rat list \<Rightarrow> fval" where
  "quantile q xs =
     (if xs = [] then NaN
      else let s = sort xs;
               h = q * of_nat (length xs - 1);
               lo = nat \<lfloor>h\<rfloor>;
               g = h - of_int \<lfloor>h\<rfloor>
           in if lo + 1 < length xs
              then Fin (s ! lo + g * (s ! (lo + 1) - s ! lo))
              else Fin (s ! lo))"

subsection \<open>Time\<close>

text \<open>The length of \<open>d\<close> days.\<close>

definition timedelta_days :: "int \<Rightarrow> int" where
  "timedelta_days d = d * 86400000000"

text \<open>\<open>timedelta(days=d)\<close>, which raises beyond 999999999 days.\<close>

definition timedelta :: "int \<Rightarrow> error + int" where
  "timedelta d =
     (if - 999999999 \<le> d \<and> d \<le> 999999999 then Inr (timedelta_days d)
      else Inl OverflowError)"

text \<open>\<open>datetime.min\<close> is 0001-01-01 00:00:00 and \<open>datetime.max\<close> is
  9999-12-31 23:59:59.999999.\<close>

definition datetime_min :: int where
  "datetime_min = - 62135596800000000"

definition datetime_max :: int where
  "datetime_max = 253402300799999999"

definition in_calendar :: "int \<Rightarrow> bool" where
  "in_calendar t \<longleftrightarrow> datetime_min \<le> t \<and> t \<le> datetime_max"

text \<open>\<open>t + d\<close> for a \<open>datetime\<close> \<open>t\<close> and a \<open>timedelta\<close> \<open>d\<close>; \<open>t - d\<close> is
  \<open>t + (-d)\<close>.\<close>

definition datetime_add :: "int \<Rightarrow> int \<Rightarrow> error + int" where
  "datetime_add t d = (if in_calendar (t + d) then Inr (t + d) else Inl OverflowError)"

text \<open>\<open>datetime.now() - timedelta(days=d)\<close>, with the first reading of the clock.\<close>

definition date_cutoff :: "(nat \<Rightarrow> int) \<Rightarrow> int \<Rightarrow> error + int" where
  "date_cutoff clock d =
     (case timedelta d of
        Inl e \<Rightarrow> Inl e
      | Inr td \<Rightarrow> datetime_add (clock 0) (- td))"

definition days_order :: "string list" where
  "days_order = [''Monday'', ''Tuesday'', ''Wednesday'', ''Thursday'', ''Friday'',
                 ''Saturday'', ''Sunday'']"

text \<open>\<open>strftime('%A')\<close>: 1970-01-01 was a Thursday.\<close>

definition strftime_A :: "int \<Rightarrow> string" where
  "strftime_A t = days_order ! nat ((t div 86400000000 + 3) mod 7)"

subsection \<open>\<open>get_sales_trends\<close>\<close>

record trend_row =
  tr_date :: int
  tr_quantity_sold :: rat
  tr_revenue :: rat
  tr_waste_quantity :: rat

definition get_sales_trends :: "(nat \<Rightarrow> int) \<Rightarrow> ledger \<Rightarrow> int \<Rightarrow> error + trend_row list" where
  "get_sales_trends clock data period_days =
     (case date_cutoff clock period_days of
        Inl e \<Rightarrow> Inl e
      | Inr cutoff \<Rightarrow>
          let recent_data = filter (\<lambda>r. cutoff \<le> date r) data
          in Inr (map (\<lambda>d. let g = group_rows date recent_data d
                  in \<lparr>tr_date = d,
                      tr_quantity_sold = col_sum (\<lambda>r. of_int (quantity_sold r)) g,
                      tr_revenue = col_sum revenue g,
                      tr_waste_quantity = col_sum (\<lambda>r. of_int (waste_quantity r)) g\<rparr>)
             (group_keys date recent_data)))"

subsection \<open>\<open>get_menu_performance\<close>\<close>

record perf_row =
  pf_menu_item :: string
  total_sold :: rat
  avg_daily_sold :: rat
  total_revenue :: rat
  total_waste :: rat
  total_waste_cost :: rat
  waste_percentage :: fval
  profitability :: rat

text \<open>The row of one menu item: the five aggregates of its group, each rounded to two
  decimals, and the two columns derived from the rounded ones.\<close>

definition perf_row_of :: "string \<Rightarrow> ledger \<Rightarrow> perf_row" where
  "perf_row_of k g =
     (let ts = round2 (col_sum (\<lambda>r. of_int (quantity_sold r)) g);
          av = round2 (col_mean (\<lambda>r. of_int (quantity_sold r)) g);
          tr = round2 (col_sum revenue g);
          tw = round2 (col_sum (\<lambda>r. of_int (waste_quantity r)) g);
          tc = round2 (col_sum waste_cost g)
      in \<lparr>pf_menu_item = k, total_sold = ts, avg_daily_sold = av, total_revenue = tr,
          total_waste = tw, total_waste_cost = tc,
          waste_percentage = times100 (np_div tw ts),
          profitability = tr - tc\<rparr>)"

definition get_menu_performance :: "(rat list \<Rightarrow> nat list) \<Rightarrow> ledger \<Rightarrow> perf_row list" where
  "get_menu_performance asrt data =
     (let performance = map (\<lambda>k. perf_row_of k (group_rows menu_item data k))
                            (group_keys menu_item data)
      in sort_values asrt profitability False performance)"

subsection \<open>\<open>get_daily_patterns\<close>\<close>

text \<open>After \<open>pd.Categorical(..., categories=days_order)\<close> the day of a row is one of the
  seven categories, or NaN (\<open>None\<close>) for any other name.\<close>

record pattern_row =
  pt_day_of_week :: "string option"
  pt_quantity_sold :: rat
  pt_revenue :: rat
  pt_waste_quantity :: rat

text \<open>The code of a category: its position in \<open>days_order\<close>.\<close>

fun position :: "'a \<Rightarrow> 'a list \<Rightarrow> nat option" where
  "position x [] = None"
| "position x (y # ys) =
     (if x = y then Some 0 else map_option Suc (position x ys))"

definition categorical :: "string list \<Rightarrow> string \<Rightarrow> string option" where
  "categorical categories v = (if v \<in> set categories then Some v else None)"

definition pattern_row_of :: "string \<Rightarrow> ledger \<Rightarrow> pattern_row" where
  "pattern_row_of k g =
     \<lparr>pt_day_of_week = categorical days_order k,
      pt_quantity_sold = col_mean (\<lambda>r. of_int (quantity_sold r)) g,
      pt_revenue = col_mean revenue g,
      pt_waste_quantity = col_mean (\<lambda>r. of_int (waste_quantity r)) g\<rparr>"

text \<open>Sorting by the categorical column orders the rows by category code; the rows whose
  day is NaN come last, in the order they had. The codes of the rows are distinct, so
  every array sort gives the same result.\<close>

definition day_code :: "string \<Rightarrow> nat" where
  "day_code d = (case position d days_order of None \<Rightarrow> 0 | Some c \<Rightarrow> c)"

definition category_code :: "pattern_row \<Rightarrow> nat" where
  "category_code p = (case pt_day_of_week p of None \<Rightarrow> 0 | Some d \<Rightarrow> day_code d)"

definition get_daily_patterns :: "ledger \<Rightarrow> pattern_row list" where
  "get_daily_patterns data =
     (let daily_patterns = map (\<lambda>k. pattern_row_of k (group_rows day_of_week data k))
                               (group_keys day_of_week data)
      in sort_key category_code (filter (\<lambda>p. pt_day_of_week p \<noteq> None) daily_patterns) @
         filter (\<lambda>p. pt_day_of_week p = None) daily_patterns)"

subsection \<open>\<open>forecast_demand\<close>\<close>

record forecast_row =
  fc_date :: int
  forecasted_demand :: int
  fc_day_of_week :: string

text \<open>\<open>datetime.now() + timedelta(days=i+1)\<close> in iteration \<open>i\<close> of the loop, which takes
  reading \<open>i + 1\<close> of the clock.\<close>

definition forecast_date_at :: "(nat \<Rightarrow> int) \<Rightarrow> nat \<Rightarrow> error + int" where
  "forecast_date_at clock i =
     (case timedelta (int i + 1) of
        Inl e \<Rightarrow> Inl e
      | Inr td \<Rightarrow> datetime_add (clock (i + 1)) td)"

text \<open>The loop \<open>for i in range(days)\<close>: \<open>n\<close> iterations are left, \<open>i\<close> is the loop
  variable, \<open>acc\<close> the list built so far. Each iteration computes the date and then
  converts the forecast value, which raises when the value is NaN.\<close>

primrec forecast_loop ::
  "(nat \<Rightarrow> int) \<Rightarrow> fval \<Rightarrow> nat \<Rightarrow> nat \<Rightarrow> forecast_row list \<Rightarrow> error + forecast_row list" where
  "forecast_loop clock fv 0 i acc = Inr acc"
| "forecast_loop clock fv (Suc n) i acc =
     (case forecast_date_at clock i of
        Inl e \<Rightarrow> Inl e
      | Inr forecast_date \<Rightarrow>
          (case py_int fv of
             Inl e \<Rightarrow> Inl e
           | Inr v \<Rightarrow>
               forecast_loop clock fv n (i + 1)
                 (acc @ [\<lparr>fc_date = forecast_date, forecasted_demand = v,
                           fc_day_of_week = strftime_A forecast_date\<rparr>])))"

text \<open>The row the loop appends in iteration \<open>i\<close> when the date is in range and the
  forecast value converts to \<open>v\<close>.\<close>

definition forecast_row_at :: "(nat \<Rightarrow> int) \<Rightarrow> int \<Rightarrow> nat \<Rightarrow> forecast_row" where
  "forecast_row_at clock v i =
     \<lparr>fc_date = clock (i + 1) + timedelta_days (int i + 1), forecasted_demand = v,
      fc_day_of_week = strftime_A (clock (i + 1) + timedelta_days (int i + 1))\<rparr>"

definition daily_totals_of :: "ledger \<Rightarrow> rat list" where
  "daily_totals_of rows =
     map (\<lambda>d. col_sum (\<lambda>r. of_int (quantity_sold r)) (group_rows date rows d))
         (group_keys date rows)"

definition forecast_demand :: "(nat \<Rightarrow> int) \<Rightarrow> ledger \<Rightarrow> int \<Rightarrow> error + forecast_row list" where
  "forecast_demand clock data days =
     (case date_cutoff clock 30 of
        Inl e \<Rightarrow> Inl e
      | Inr cutoff \<Rightarrow>
          let recent_sales = filter (\<lambda>r. cutoff \<le> date r) data;
              daily_totals = daily_totals_of recent_sales;
              forecast_value = series_mean (tail 7 daily_totals)
          in forecast_loop clock forecast_value (nat days) 0 [])"

subsection \<open>\<open>get_waste_analysis\<close>\<close>

record waste_row =
  ws_menu_item :: string
  ws_waste_quantity :: rat
  ws_waste_cost :: rat
  ws_quantity_sold :: rat
  ws_waste_percentage :: fval

definition waste_row_of :: "string \<Rightarrow> ledger \<Rightarrow> waste_row" where
  "waste_row_of k g =
     (let wq = col_sum (\<lambda>r. of_int (waste_quantity r)) g;
          wc = col_sum waste_cost g;
          qs = col_sum (\<lambda>r. of_int (quantity_sold r)) g
      in \<lparr>ws_menu_item = k, ws_waste_quantity = wq, ws_waste_cost = wc,
          ws_quantity_sold = qs, ws_waste_percentage = times100 (np_div wq qs)\<rparr>)"

definition get_waste_analysis :: "(rat list \<Rightarrow> nat list) \<Rightarrow> ledger \<Rightarrow> waste_row list" where
  "get_waste_analysis asrt data =
     (let waste_summary = map (\<lambda>k. waste_row_of k (group_rows menu_item data k))
                              (group_keys menu_item data)
      in sort_values asrt ws_waste_cost False waste_summary)"

subsection \<open>\<open>generate_recommendations\<close>\<close>

text \<open>A recommendation is a dictionary with the keys \<open>type\<close>, \<open>message\<close> and \<open>action\<close>.
  The two texts are fixed sentences around the menu item and the percentage (printed
  with one decimal); the model keeps the type, the item and the percentage.\<close>

record recommendation =
  rec_type :: string
  rec_item :: "string option"
  rec_percent :: "fval option"

definition high_waste_of :: "waste_row list \<Rightarrow> waste_row list" where
  "high_waste_of waste_analysis = filter (\<lambda>w. fgt (ws_waste_percentage w) 15) waste_analysis"

definition low_performers_of :: "perf_row list \<Rightarrow> perf_row list" where
  "low_performers_of menu_perf =
     filter (\<lambda>p. lt_fval (profitability p) (quantile (1 / 4) (map profitability menu_perf)))
            menu_perf"

definition warning_rec :: "waste_row \<Rightarrow> recommendation" where
  "warning_rec w =
     \<lparr>rec_type = ''warning'', rec_item = Some (ws_menu_item w),
      rec_percent = Some (ws_waste_percentage w)\<rparr>"

definition info_rec :: "perf_row \<Rightarrow> recommendation" where
  "info_rec p = \<lparr>rec_type = ''info'', rec_item = Some (pf_menu_item p), rec_percent = None\<rparr>"

text \<open>The quotient of the two totals, times 100, for numpy numbers.\<close>

definition waste_ratio :: "ledger \<Rightarrow> fval" where
  "waste_ratio data = times100 (np_div (col_sum waste_cost data) (col_sum revenue data))"

text \<open>\<open>(data['waste_cost'].sum() / data['revenue'].sum()) * 100\<close>: on the table without
  rows both sums are the Python integer 0, and \<open>0 / 0\<close> raises.\<close>

definition total_waste_percent_of :: "ledger \<Rightarrow> error + fval" where
  "total_waste_percent_of data =
     (if data = [] then Inl ZeroDivisionError else Inr (waste_ratio data))"

definition critical_recs :: "fval \<Rightarrow> recommendation list" where
  "critical_recs total_waste_percent =
     (if fgt total_waste_percent 15
      then [\<lparr>rec_type = ''critical'', rec_item = None,
             rec_percent = Some total_waste_percent\<rparr>]
      else [])"

text \<open>The list is returned at the end; when the division raises, nothing is returned.\<close>

definition generate_recommendations ::
  "(rat list \<Rightarrow> nat list) \<Rightarrow> ledger \<Rightarrow> error + recommendation list" where
  "generate_recommendations asrt data =
     (let menu_perf = get_menu_performance asrt data;
          waste_analysis = get_waste_analysis asrt data;
          high_waste = high_waste_of waste_analysis;
          low_performers = low_performers_of menu_perf
      in case total_waste_percent_of data of
           Inl e \<Rightarrow> Inl e
         | Inr total_waste_percent \<Rightarrow>
             Inr (map warning_rec high_waste @ map info_rec (take 2 low_performers) @
                  critical_recs total_waste_percent))"

subsection \<open>Calling a method of the engine\<close>

text \<open>A method of \<open>AnalyticsEngine\<close> runs in an environment it does not receive as an
  argument: the ledger behind \<open>self.dm\<close>, the system clock and the array sort of numpy.
  \<open>call_method\<close> is the call of one method, with its explicit arguments, in such an
  environment.\<close>

datatype request =
    Get_sales_trends int
  | Get_menu_performance
  | Get_daily_patterns
  | Forecast_demand int
  | Get_waste_analysis
  | Generate_recommendations

datatype response =
    Sales_trends "error + trend_row list"
  | Menu_performance "perf_row list"
  | Daily_patterns "pattern_row list"
  | Forecast "error + forecast_row list"
  | Waste_analysis "waste_row list"
  | Recommendations "error + recommendation list"

fun call_method :: "(rat list \<Rightarrow> nat list) \<Rightarrow> (nat \<Rightarrow> int) \<Rightarrow> ledger \<Rightarrow> request \<Rightarrow> response" where
  "call_method asrt clock data (Get_sales_trends period_days) =
     Sales_trends (get_sales_trends clock data period_days)"
| "call_method asrt clock data Get_menu_performance =
     Menu_performance (get_menu_performance asrt data)"
| "call_method asrt clock data Get_daily_patterns =
     Daily_patterns (get_daily_patterns data)"
| "call_method asrt clock data (Forecast_demand days) =
     Forecast (forecast_demand clock data days)"
| "call_method asrt clock data Get_waste_analysis =
     Waste_analysis (get_waste_analysis asrt data)"
| "call_method asrt clock data Generate_recommendations =
     Recommendations (generate_recommendations asrt data)"

subsection \<open>Example ledgers\<close>

text \<open>The record \<open>DataManager.add_sales_record\<close> builds for a sale, the price of the
  item (looked up in the configuration there) given.\<close>

definition new_record :: "int \<Rightarrow> string \<Rightarrow> int \<Rightarrow> int \<Rightarrow> rat \<Rightarrow> sales_record" where
  "new_record d item sold wasted p =
     \<lparr>date = d, day_of_week = strftime_A d, menu_item = item, quantity_sold = sold,
      price = p, revenue = of_int sold * p, waste_quantity = wasted,
      waste_cost = of_int wasted * p * (3 / 10),
      is_weekday = ((d div 86400000000 + 3) mod 7 < 5)\<rparr>"

text \<open>An array sort that is not stable: equal keys come out in descending position.\<close>

definition rev_argsort :: "rat list \<Rightarrow> nat list" where
  "rev_argsort ks = rev (sort_key (\<lambda>i. - (ks ! i)) [0..<length ks])"

text \<open>2025-11-04 00:00, a Tuesday.\<close>

definition now0 :: int where
  "now0 = 1762214400000000"

text \<open>Twenty items of equal profitability, entered in ascending order of the item.\<close>

definition twenty_names :: "string list" where
  "twenty_names =
     [''a'', ''b'', ''c'', ''d'', ''e'', ''f'', ''g'', ''h'', ''i'', ''j'',
      ''k'', ''l'', ''m'', ''n'', ''o'', ''p'', ''q'', ''r'', ''s'', ''t'']"

definition twenty_tied :: ledger where
  "twenty_tied = map (\<lambda>item. new_record (now0 - timedelta_days 1) item 5 0 40) twenty_names"

text \<open>Ten items with the profitabilities 1 to 10.\<close>

definition ten_items :: ledger where
  "ten_items =
     [new_record (now0 - timedelta_days 1) ''a'' 1 0 1,
      new_record (now0 - timedelta_days 1) ''b'' 2 0 1,
      new_record (now0 - timedelta_days 1) ''c'' 3 0 1,
      new_record (now0 - timedelta_days 1) ''d'' 4 0 1,
      new_record (now0 - timedelta_days 1) ''e'' 5 0 1,
      new_record (now0 - timedelta_days 1) ''f'' 6 0 1,
      new_record (now0 - timedelta_days 1) ''g'' 7 0 1,
      new_record (now0 - timedelta_days 1) ''h'' 8 0 1,
      new_record (now0 - timedelta_days 1) ''i'' 9 0 1,
      new_record (now0 - timedelta_days 1) ''j'' 10 0 1]"

text \<open>An item that was wasted and never sold.\<close>

definition unsold_item :: ledger where
  "unsold_item = [new_record (now0 - timedelta_days 1) ''Fruit Salad'' 0 5 80]"

text \<open>No revenue at all, and waste.\<close>

definition no_revenue :: ledger where
  "no_revenue =
     [new_record (now0 - timedelta_days 2) ''Tea & Mandazi'' 0 3 50,
      new_record (now0 - timedelta_days 1) ''Tea & Mandazi'' 0 1 50]"

text \<open>A waste cost of 15.015, which rounds to 15.02.\<close>

definition odd_price :: ledger where
  "odd_price = [new_record (now0 - timedelta_days 1) ''Juice'' 10 1 (1001 / 20)]"

text \<open>The seven days before \<open>now0\<close>, with the daily totals 10, 20, ..., 70.\<close>

definition seven_days :: ledger where
  "seven_days =
     [new_record (now0 - timedelta_days 7) ''Juice'' 10 0 60,
      new_record (now0 - timedelta_days 6) ''Juice'' 20 0 60,
      new_record (now0 - timedelta_days 5) ''Juice'' 20 0 60,
      new_record (now0 - timedelta_days 5) ''Samosa'' 10 0 40,
      new_record (now0 - timedelta_days 4) ''Juice'' 40 0 60,
      new_record (now0 - timedelta_days 3) ''Juice'' 50 0 60,
      new_record (now0 - timedelta_days 2) ''Juice'' 60 0 60,
      new_record (now0 - timedelta_days 1) ''Juice'' 70 0 60]"

text \<open>A single sale, sixty days before \<open>now0\<close>.\<close>

definition stale_ledger :: ledger where
  "stale_ledger = [new_record (now0 - timedelta_days 60) ''Samosa'' 12 1 40]"

text \<open>Two items with high waste: 80 and 60 percent of the units sold, 22.5 percent of
  the revenue overall.\<close>

definition wasteful :: ledger where
  "wasteful =
     [new_record (now0 - timedelta_days 1) ''Samosa'' 10 6 50,
      new_record (now0 - timedelta_days 1) ''Chips & Chicken'' 10 8 150]"

text \<open>One Monday (2025-11-03) and nothing else.\<close>

definition monday_only :: ledger where
  "monday_only =
     [\<lparr>date = 1762128000000000, day_of_week = ''Monday'', menu_item = ''Rice & Stew'',
       quantity_sold = 30, price = 120, revenue = 3600, waste_quantity = 2,
       waste_cost = 72, is_weekday = True\<rparr>]"

section \<open>Properties\<close>

subsection \<open>Grouping\<close>

lemma distinct_group_keys: "distinct (group_keys key rows)"
  by (simp add: group_keys_def)

lemma set_group_keys: "set (group_keys key rows) = key ` set rows"
  by (simp add: group_keys_def)

lemma sorted_group_keys: "sorted (group_keys key rows)"
  by (simp add: group_keys_def)

lemma insort_key_map_commute:
  "insort_key c (f x) (map f xs) = map f (insort_key (\<lambda>y. c (f y)) x xs)"
  by (induction xs) auto

lemma sort_key_map_commute:
  "sort_key c (map f xs) = map f (sort_key (\<lambda>y. c (f y)) xs)"
  by (induction xs) (auto simp: insort_key_map_commute)

subsection \<open>The weekday table\<close>

lemma position_Some_iff: "(\<exists>c. position x ys = Some c) \<longleftrightarrow> x \<in> set ys"
  by (induction ys) auto

lemma position_inj: "position x ys = Some c \<Longrightarrow> position y ys = Some c \<Longrightarrow> x = y"
  by (induction ys arbitrary: c) (auto split: if_splits)

lemma day_code_inj_on: "inj_on day_code (set days_order)"
proof (rule inj_onI)
  fix x y
  assume x: "x \<in> set days_order" and y: "y \<in> set days_order"
    and e: "day_code x = day_code y"
  from x obtain c where c: "position x days_order = Some c"
    using position_Some_iff by metis
  from y obtain c' where c': "position y days_order = Some c'"
    using position_Some_iff by metis
  from e c c' have "c = c'" by (simp add: day_code_def)
  with c c' show "x = y" using position_inj by metis
qed

lemma map_day_code_days_order: "map day_code days_order = [0..<7]"
  by (simp add: days_order_def day_code_def upt_rec)

text \<open>Sorting distinct weekday names by their code selects them from \<open>days_order\<close>.\<close>

lemma sort_days:
  assumes "distinct xs" "set xs \<subseteq> set days_order"
  shows "sort_key day_code xs = filter (\<lambda>d. d \<in> set xs) days_order"
proof -
  let ?l = "sort_key day_code xs" and ?r = "filter (\<lambda>d. d \<in> set xs) days_order"
  have inj: "inj_on day_code (set ?l \<union> set ?r)"
    using assms(2) by (auto intro: inj_on_subset[OF day_code_inj_on])
  have "sorted (map day_code ?l)" by simp
  moreover have "distinct (map day_code ?l)"
    using assms inj by (simp add: distinct_map inj_on_subset[OF day_code_inj_on])
  moreover have "sorted (map day_code ?r)"
    using sorted_filter[of day_code days_order] by (simp add: map_day_code_days_order)
  moreover have "distinct (map day_code ?r)"
    using distinct_map_filter[of day_code days_order] by (simp add: map_day_code_days_order)
  moreover have "set (map day_code ?l) = set (map day_code ?r)"
    using assms(2) by auto
  ultimately have "map day_code ?l = map day_code ?r"
    by (rule sorted_distinct_set_unique)
  then show ?thesis using inj by (rule map_inj_on)
qed

lemma category_code_pattern_row: "category_code (pattern_row_of k g) = day_code k"
  by (auto simp: category_code_def pattern_row_of_def categorical_def day_code_def
      split: option.splits dest: position_Some_iff[THEN iffD1, OF exI])

lemma pt_day_pattern_row:
  "pt_day_of_week (pattern_row_of k g) = (if k \<in> set days_order then Some k else None)"
  by (simp add: pattern_row_of_def categorical_def)

text \<open>
  Claim C1, as the specification states it: \<open>get_daily_patterns\<close> returns exactly seven
  rows for every ledger. It does not: \<open>groupby('day_of_week')\<close> makes one row per weekday
  name that occurs in the ledger, and the categorical column only orders these rows. A
  ledger with a single Monday gives a single row.
\<close>

theorem daily_patterns_seven_rows_counterexample:
  "length (get_daily_patterns monday_only) \<noteq> 7"
  by (simp add: get_daily_patterns_def monday_only_def group_keys_def group_rows_def
      pattern_row_of_def categorical_def days_order_def)

text \<open>
  Claim C1, amended: the table has one row for each weekday name that occurs in the
  ledger and none for a weekday that does not occur. The rows of the seven weekdays
  come first, ordered Monday to Sunday; the rows of any other name follow, their day
  being NaN. A weekday without records is left out; there is no "no data" row.
\<close>

theorem daily_patterns_rows:
  "map pt_day_of_week (get_daily_patterns data) =
     map Some (filter (\<lambda>d. d \<in> day_of_week ` set data) days_order) @
     replicate (card (day_of_week ` set data - set days_order)) None"
proof -
  define ks where "ks = group_keys day_of_week data"
  define f where "f = (\<lambda>k. pattern_row_of k (group_rows day_of_week data k))"
  define known where "known = filter (\<lambda>k. k \<in> set days_order) ks"
  define other where "other = filter (\<lambda>k. k \<notin> set days_order) ks"
  have dk: "distinct ks" and sk: "set ks = day_of_week ` set data"
    by (simp_all add: ks_def distinct_group_keys set_group_keys)
  have 1: "filter (\<lambda>p. pt_day_of_week p \<noteq> None) (map f ks) = map f known"
    by (simp add: filter_map comp_def f_def pt_day_pattern_row known_def)
  have 2: "filter (\<lambda>p. pt_day_of_week p = None) (map f ks) = map f other"
    by (simp add: filter_map comp_def f_def pt_day_pattern_row other_def)
  have 3: "sort_key category_code (map f known) = map f (sort_key day_code known)"
    by (simp add: sort_key_map_commute f_def category_code_pattern_row)
  have 4: "sort_key day_code known = filter (\<lambda>d. d \<in> set known) days_order"
    by (rule sort_days) (auto simp: known_def dk)
  have 5: "filter (\<lambda>d. d \<in> set known) days_order =
           filter (\<lambda>d. d \<in> day_of_week ` set data) days_order"
    by (rule filter_cong) (auto simp: known_def sk)
  have 6: "map pt_day_of_week (map f (filter (\<lambda>d. d \<in> day_of_week ` set data) days_order)) =
           map Some (filter (\<lambda>d. d \<in> day_of_week ` set data) days_order)"
    by (simp add: f_def pt_day_pattern_row)
  have 7: "map pt_day_of_week (map f other) = replicate (length other) None"
    by (simp add: f_def pt_day_pattern_row other_def map_replicate_const[symmetric])
  have "distinct other" "set other = day_of_week ` set data - set days_order"
    using dk sk by (auto simp: other_def)
  then have 8: "length other = card (day_of_week ` set data - set days_order)"
    using distinct_card by metis
  have "get_daily_patterns data =
        sort_key category_code (map f known) @ map f other"
    unfolding get_daily_patterns_def Let_def ks_def[symmetric] f_def[symmetric]
    by (simp only: 1 2)
  then show ?thesis
    using 3 4 5 6 7 8 by simp
qed

subsection \<open>The array sort and \<open>sort_values\<close>\<close>

lemma valid_argsort_stable: "valid_argsort stable_argsort"
  by (simp add: valid_argsort_def stable_argsort_def atLeast0LessThan)

lemma valid_argsortD:
  assumes "valid_argsort asrt"
  shows "length (asrt ks) = length ks" "set (asrt ks) = {..<length ks}"
    "sorted (map (\<lambda>i. ks ! i) (asrt ks))"
  using assms by (simp_all add: valid_argsort_def)

lemma valid_argsort_distinct:
  assumes "valid_argsort asrt"
  shows "distinct (asrt ks)"
  by (rule card_distinct) (simp add: valid_argsortD[OF assms])

lemma length_nargsort:
  "valid_argsort asrt \<Longrightarrow> length (nargsort asrt ks asc) = length ks"
  by (simp add: nargsort_def valid_argsortD)

lemma mirror_image: "(\<lambda>j. n - 1 - j) ` {..<n} = {..<n::nat}"
proof (rule set_eqI)
  fix x
  show "x \<in> (\<lambda>j. n - 1 - j) ` {..<n} \<longleftrightarrow> x \<in> {..<n}"
  proof
    assume "x \<in> (\<lambda>j. n - 1 - j) ` {..<n}"
    then show "x \<in> {..<n}" by auto
  next
    assume "x \<in> {..<n}"
    then have "x = n - 1 - (n - 1 - x)" "n - 1 - x < n" by auto
    then show "x \<in> (\<lambda>j. n - 1 - j) ` {..<n}" by blast
  qed
qed

lemma set_nargsort:
  assumes "valid_argsort asrt"
  shows "set (nargsort asrt ks asc) = {..<length ks}"
  using mirror_image[of "length ks"]
  by (simp add: nargsort_def valid_argsortD[OF assms])

lemma distinct_nargsort:
  assumes "valid_argsort asrt"
  shows "distinct (nargsort asrt ks asc)"
  by (rule card_distinct) (simp add: set_nargsort[OF assms] length_nargsort[OF assms])

lemma nargsort_desc_keys:
  assumes "valid_argsort asrt"
  shows "sorted_wrt (\<lambda>a b. b \<le> a) (map (\<lambda>i. ks ! i) (nargsort asrt ks False))"
proof -
  have eq: "map (\<lambda>j. ks ! (length ks - 1 - j)) (asrt (rev ks)) =
        map (\<lambda>j. rev ks ! j) (asrt (rev ks))"
    using valid_argsortD(2)[OF assms, of "rev ks"] by (auto simp: rev_nth)
  have "sorted (map (\<lambda>j. ks ! (length ks - 1 - j)) (asrt (rev ks)))"
    unfolding eq by (rule valid_argsortD(3)[OF assms])
  then have "sorted_wrt (\<lambda>a b. b \<le> a) (rev (map (\<lambda>j. ks ! (length ks - 1 - j)) (asrt (rev ks))))"
    by (simp add: sorted_wrt_rev)
  then show ?thesis
    by (simp add: nargsort_def rev_map comp_def)
qed

lemma map_key_sort_values:
  assumes "valid_argsort asrt"
  shows "map key (sort_values asrt key asc rows) =
         map (\<lambda>i. map key rows ! i) (nargsort asrt (map key rows) asc)"
  using set_nargsort[OF assms, of "map key rows" asc]
  by (auto simp: sort_values_def)

lemma sort_values_desc_sorted:
  assumes "valid_argsort asrt"
  shows "sorted_wrt (\<lambda>a b. key b \<le> key a) (sort_values asrt key False rows)"
proof -
  have "sorted_wrt (\<lambda>a b. b \<le> a) (map key (sort_values asrt key False rows))"
    by (simp only: map_key_sort_values[OF assms] nargsort_desc_keys[OF assms])
  then show ?thesis by (simp add: sorted_wrt_map)
qed

lemma length_sort_values:
  "valid_argsort asrt \<Longrightarrow> length (sort_values asrt key asc rows) = length rows"
  by (simp add: sort_values_def length_nargsort)

lemma set_sort_values:
  assumes "valid_argsort asrt"
  shows "set (sort_values asrt key asc rows) = set rows"
proof -
  have "set (sort_values asrt key asc rows) = (\<lambda>i. rows ! i) ` {..<length rows}"
    by (simp add: sort_values_def set_nargsort[OF assms])
  also have "\<dots> = set rows"
    by (auto simp: set_conv_nth)
  finally show ?thesis .
qed

lemma distinct_sort_values:
  assumes "valid_argsort asrt" "distinct (map f rows)"
  shows "distinct (map f (sort_values asrt key asc rows))"
proof -
  have "map f (sort_values asrt key asc rows) =
        map (\<lambda>i. map f rows ! i) (nargsort asrt (map key rows) asc)"
    using set_nargsort[OF assms(1), of "map key rows" asc] by (auto simp: sort_values_def)
  moreover have "inj_on (\<lambda>i. map f rows ! i) (set (nargsort asrt (map key rows) asc))"
    using assms(2) set_nargsort[OF assms(1), of "map key rows" asc]
    by (auto simp: inj_on_def nth_eq_iff_index_eq simp del: nth_map)
  ultimately show ?thesis
    by (simp add: distinct_map distinct_nargsort[OF assms(1)])
qed

lemma valid_argsort_rev: "valid_argsort rev_argsort"
proof -
  have "sorted (map (\<lambda>i. ks ! i) (rev (sort_key (\<lambda>i. - (ks ! i)) [0..<length ks])))" for ks :: "rat list"
  proof -
    have "sorted (map (\<lambda>i. - (ks ! i)) (sort_key (\<lambda>i. - (ks ! i)) [0..<length ks]))"
      by (rule sorted_sort_key)
    then have "sorted_wrt (\<lambda>a b. b \<le> a) (map (\<lambda>i. ks ! i) (sort_key (\<lambda>i. - (ks ! i)) [0..<length ks]))"
      by (simp add: sorted_wrt_map)
    then show ?thesis
      by (simp add: rev_map[symmetric] sorted_wrt_rev)
  qed
  then show ?thesis
    by (simp add: valid_argsort_def rev_argsort_def atLeast0LessThan)
qed

subsection \<open>The menu performance table\<close>

lemma set_menu_performance:
  assumes "valid_argsort asrt"
  shows "set (get_menu_performance asrt data) =
         (\<lambda>k. perf_row_of k (group_rows menu_item data k)) ` menu_item ` set data"
  by (simp add: get_menu_performance_def set_sort_values[OF assms] set_group_keys)

lemma pf_menu_item_perf_row_of [simp]: "pf_menu_item (perf_row_of k g) = k"
  by (simp add: perf_row_of_def Let_def)

lemma menu_performance_items:
  assumes "valid_argsort asrt"
  shows "distinct (map pf_menu_item (get_menu_performance asrt data))"
    and "set (map pf_menu_item (get_menu_performance asrt data)) = menu_item ` set data"
proof -
  show "distinct (map pf_menu_item (get_menu_performance asrt data))"
    unfolding get_menu_performance_def Let_def
    by (rule distinct_sort_values[OF assms]) (simp add: comp_def distinct_group_keys)
  show "set (map pf_menu_item (get_menu_performance asrt data)) = menu_item ` set data"
    by (simp add: set_menu_performance[OF assms] image_image)
qed

text \<open>A stable sort of positions that are in ascending order sorts them by key and,
  among equal keys, by position.\<close>

lemma insort_key_by_key_then_position:
  assumes "sorted_wrt (\<lambda>a b. f a < f b \<or> (f a = f b \<and> a < b)) ys"
    and "\<forall>y \<in> set ys. x < y"
  shows "sorted_wrt (\<lambda>a b. f a < f b \<or> (f a = f b \<and> a < b)) (insort_key f x ys)"
  using assms
proof (induction ys)
  case Nil
  then show ?case by simp
next
  case (Cons y ys)
  show ?case
  proof (cases "f x \<le> f y")
    case True
    have "f x < f z \<or> (f x = f z \<and> x < z)" if "z \<in> set (y # ys)" for z
    proof -
      have "f y \<le> f z" using that Cons.prems(1) by auto
      moreover have "x < z" using that Cons.prems(2) by auto
      ultimately show ?thesis using True by auto
    qed
    then show ?thesis using True Cons.prems(1) by auto
  next
    case False
    have "sorted_wrt (\<lambda>a b. f a < f b \<or> (f a = f b \<and> a < b)) (insort_key f x ys)"
      using Cons by auto
    moreover have "f y < f w \<or> (f y = f w \<and> y < w)" if "w \<in> set (insort_key f x ys)" for w
      using that False Cons.prems(1) by (auto simp: set_insort_key)
    ultimately show ?thesis using False by auto
  qed
qed

lemma sort_key_by_key_then_position:
  fixes xs :: "nat list"
  assumes "sorted xs" "distinct xs"
  shows "sorted_wrt (\<lambda>a b. f a < f b \<or> (f a = f b \<and> a < b)) (sort_key f xs)"
  using assms
proof (induction xs)
  case Nil
  then show ?case by simp
next
  case (Cons x xs)
  have "\<forall>y \<in> set (sort_key f xs). x < y"
    using Cons.prems by (auto simp: le_less)
  moreover have "sorted_wrt (\<lambda>a b. f a < f b \<or> (f a = f b \<and> a < b)) (sort_key f xs)"
    using Cons by simp
  ultimately show ?case
    by (simp add: insort_key_by_key_then_position)
qed

lemma nargsort_stable_desc:
  "sorted_wrt (\<lambda>i j. ks ! j < ks ! i \<or> (ks ! j = ks ! i \<and> i < j))
     (nargsort stable_argsort ks False)"
proof -
  let ?n = "length ks"
  let ?S = "sort_key (\<lambda>j. rev ks ! j) [0..<?n]"
  have S: "sorted_wrt (\<lambda>a b. rev ks ! a < rev ks ! b \<or> (rev ks ! a = rev ks ! b \<and> a < b)) ?S"
    by (rule sort_key_by_key_then_position) simp_all
  have setS: "set ?S = {..<?n}"
    by (simp add: atLeast0LessThan)
  have "sorted_wrt (\<lambda>a b. ks ! (?n - 1 - a) < ks ! (?n - 1 - b) \<or>
          (ks ! (?n - 1 - a) = ks ! (?n - 1 - b) \<and> ?n - 1 - b < ?n - 1 - a)) ?S"
  proof (rule sorted_wrt_mono_rel[OF _ S])
    fix a b
    assume "a \<in> set ?S" "b \<in> set ?S"
      and r: "rev ks ! a < rev ks ! b \<or> (rev ks ! a = rev ks ! b \<and> a < b)"
    then have a: "a < ?n" and b: "b < ?n"
      using setS by auto
    have "rev ks ! a = ks ! (?n - 1 - a)" "rev ks ! b = ks ! (?n - 1 - b)"
      using a b by (simp_all add: rev_nth)
    moreover have "a < b \<Longrightarrow> ?n - 1 - b < ?n - 1 - a"
      using a b by arith
    ultimately show "ks ! (?n - 1 - a) < ks ! (?n - 1 - b) \<or>
          (ks ! (?n - 1 - a) = ks ! (?n - 1 - b) \<and> ?n - 1 - b < ?n - 1 - a)"
      using r by auto
  qed
  then have "sorted_wrt (\<lambda>i j. ks ! i < ks ! j \<or> (ks ! i = ks ! j \<and> j < i))
               (map (\<lambda>j. ?n - 1 - j) ?S)"
    by (simp add: sorted_wrt_map)
  then have "sorted_wrt (\<lambda>i j. ks ! j < ks ! i \<or> (ks ! j = ks ! i \<and> i < j))
               (rev (map (\<lambda>j. ?n - 1 - j) ?S))"
    by (simp add: sorted_wrt_rev)
  then show ?thesis
    by (simp only: nargsort_def stable_argsort_def if_False length_rev)
qed

lemma menu_performance_stable_ties:
  "sorted_wrt (\<lambda>a b. profitability b < profitability a \<or>
                      (profitability a = profitability b \<and> pf_menu_item a < pf_menu_item b))
     (get_menu_performance stable_argsort data)"
proof -
  define keys where "keys = group_keys menu_item data"
  define rows where "rows = map (\<lambda>k. perf_row_of k (group_rows menu_item data k)) keys"
  let ?ks = "map profitability rows"
  let ?idx = "nargsort stable_argsort ?ks False"
  have len: "length rows = length keys"
    by (simp add: rows_def)
  have item: "pf_menu_item (rows ! i) = keys ! i" if "i < length keys" for i
    using that by (simp add: rows_def)
  have strict: "keys ! i < keys ! j" if "i < j" "j < length keys" for i j
  proof -
    have "keys ! i \<le> keys ! j"
      using that sorted_group_keys[of menu_item data]
      by (simp add: keys_def sorted_nth_mono)
    moreover have "keys ! i \<noteq> keys ! j"
      using that distinct_group_keys[of menu_item data]
      by (simp add: keys_def nth_eq_iff_index_eq)
    ultimately show ?thesis by simp
  qed
  have idx: "set ?idx = {..<length keys}"
    using set_nargsort[OF valid_argsort_stable, of ?ks False] by (simp add: len)
  have "sorted_wrt (\<lambda>i j. profitability (rows ! j) < profitability (rows ! i) \<or>
           (profitability (rows ! i) = profitability (rows ! j) \<and>
            pf_menu_item (rows ! i) < pf_menu_item (rows ! j))) ?idx"
  proof (rule sorted_wrt_mono_rel[OF _ nargsort_stable_desc[of ?ks]])
    fix i j
    assume "i \<in> set ?idx" "j \<in> set ?idx"
      and r: "?ks ! j < ?ks ! i \<or> (?ks ! j = ?ks ! i \<and> i < j)"
    then have i: "i < length keys" and j: "j < length keys"
      using idx by auto
    have "?ks ! i = profitability (rows ! i)" "?ks ! j = profitability (rows ! j)"
      using i j len by simp_all
    then show "profitability (rows ! j) < profitability (rows ! i) \<or>
           (profitability (rows ! i) = profitability (rows ! j) \<and>
            pf_menu_item (rows ! i) < pf_menu_item (rows ! j))"
      using r strict[of i j] item[OF i] item[OF j] j by auto
  qed
  then have "sorted_wrt (\<lambda>a b. profitability b < profitability a \<or>
                      (profitability a = profitability b \<and> pf_menu_item a < pf_menu_item b))
               (map (\<lambda>i. rows ! i) ?idx)"
    by (simp add: sorted_wrt_map)
  then show ?thesis
    by (simp add: get_menu_performance_def sort_values_def rows_def keys_def)
qed

text \<open>On equal keys \<open>rev_argsort\<close> makes \<open>sort_values\<close> reverse the table.\<close>

lemma sort_key_const: "\<forall>x \<in> set xs. f x = c \<Longrightarrow> sort_key f xs = xs"
proof (induction xs)
  case Nil
  then show ?case by simp
next
  case (Cons x xs)
  then have "sort_key f xs = xs" by simp
  then show ?case using Cons.prems by (cases xs) simp_all
qed

lemma rev_upt_mirror: "rev [0..<n] = map (\<lambda>j. n - 1 - j) [0..<n]"
  by (rule nth_equalityI) (simp_all add: rev_nth)

lemma nargsort_rev_const:
  assumes "\<forall>k \<in> set ks. k = c"
  shows "nargsort rev_argsort ks False = rev [0..<length ks]"
proof -
  have "sort_key (\<lambda>i. - (rev ks ! i)) [0..<length ks] = [0..<length ks]"
    by (rule sort_key_const[where c = "- c"]) (use assms in \<open>auto simp: rev_nth\<close>)
  then have "rev_argsort (rev ks) = rev [0..<length ks]"
    by (simp add: rev_argsort_def)
  then have "nargsort rev_argsort ks False = map (\<lambda>j. length ks - 1 - j) [0..<length ks]"
    by (simp only: nargsort_def if_False rev_map rev_rev_ident)
  then show ?thesis
    by (simp only: rev_upt_mirror[symmetric])
qed

lemma sort_values_rev_const:
  assumes "\<forall>r \<in> set rows. key r = c"
  shows "sort_values rev_argsort key False rows = rev rows"
proof -
  have "nargsort rev_argsort (map key rows) False = rev [0..<length rows]"
    using nargsort_rev_const[of "map key rows" c] assms by auto
  then have "sort_values rev_argsort key False rows = map (\<lambda>i. rows ! i) (rev [0..<length rows])"
    by (simp only: sort_values_def)
  also have "\<dots> = rev (map (\<lambda>i. rows ! i) [0..<length rows])"
    by (simp only: rev_map)
  also have "\<dots> = rev rows"
    by (simp only: map_nth)
  finally show ?thesis .
qed

text \<open>
  Claim C5, as the specification states it: for every ledger the table is in descending
  order of profitability, and rows of equal profitability are in ascending order of the
  menu item. \<open>sort_values('profitability', ascending=False)\<close> sorts on one key, with the
  default \<open>kind='quicksort'\<close>, which pandas documents as not stable; the code has no
  second key. The rows enter the sort in ascending order of the item, so a stable sort
  would keep tied rows in that order. A sort that is not stable does not: with twenty
  items of equal profitability the table of such a sort is not in ascending order of
  the item.
\<close>

theorem menu_performance_order_counterexample:
  "valid_argsort rev_argsort \<and>
   map profitability (get_menu_performance rev_argsort twenty_tied) = replicate 20 200 \<and>
   \<not> sorted_wrt (\<lambda>a b. profitability b < profitability a \<or>
                      (profitability a = profitability b \<and> pf_menu_item a < pf_menu_item b))
        (get_menu_performance rev_argsort twenty_tied)"
proof -
  let ?row = "\<lambda>k. perf_row_of k (group_rows menu_item twenty_tied k)"
  let ?T = "get_menu_performance rev_argsort twenty_tied"
  have keys: "group_keys menu_item twenty_tied = twenty_names"
    by code_simp
  have profs: "map (\<lambda>k. profitability (?row k)) twenty_names = replicate 20 200"
    by code_simp
  have all: "\<forall>r \<in> set (map ?row twenty_names). profitability r = 200"
  proof -
    have "set (map (\<lambda>k. profitability (?row k)) twenty_names) \<subseteq> {200}"
      unfolding profs by simp
    then show ?thesis by auto
  qed
  have T: "?T = rev (map ?row twenty_names)"
    unfolding get_menu_performance_def Let_def keys
    by (rule sort_values_rev_const[OF all])
  have p: "map profitability ?T = replicate 20 200"
    using profs by (simp add: T rev_map[symmetric] comp_def)
  have items: "map pf_menu_item ?T = rev twenty_names"
    by (simp add: T rev_map[symmetric] comp_def)
  have "\<not> sorted_wrt (\<lambda>a b. profitability b < profitability a \<or>
                      (profitability a = profitability b \<and> pf_menu_item a < pf_menu_item b)) ?T"
  proof
    assume s: "sorted_wrt (\<lambda>a b. profitability b < profitability a \<or>
                      (profitability a = profitability b \<and> pf_menu_item a < pf_menu_item b)) ?T"
    have "sorted_wrt (\<lambda>a b. pf_menu_item a < pf_menu_item b) ?T"
    proof (rule sorted_wrt_mono_rel[OF _ s])
      fix a b
      assume "a \<in> set ?T" "b \<in> set ?T"
      then have "profitability a = 200" "profitability b = 200"
        using all by (auto simp: T)
      moreover assume "profitability b < profitability a \<or>
                      (profitability a = profitability b \<and> pf_menu_item a < pf_menu_item b)"
      ultimately show "pf_menu_item a < pf_menu_item b" by simp
    qed
    then have "sorted_wrt (<) (map pf_menu_item ?T)"
      by (simp add: sorted_wrt_map)
    moreover have "\<not> sorted_wrt (<) (rev twenty_names)"
      by code_simp
    ultimately show False
      by (simp only: items)
  qed
  with p show ?thesis
    by (simp only: valid_argsort_rev simp_thms)
qed

text \<open>
  Claim C5, amended: for every array sort the table has one row for each menu item of
  the ledger and is in descending order of profitability, equal values next to each
  other. When the array sort is stable, rows of equal profitability are in ascending
  order of the menu item; the code asks for no stable sort, and for another sort the
  order of such rows is what that sort leaves.
\<close>

theorem menu_performance_descending:
  "(valid_argsort asrt \<longrightarrow>
      sorted_wrt (\<lambda>a b. profitability b \<le> profitability a) (get_menu_performance asrt data) \<and>
      distinct (map pf_menu_item (get_menu_performance asrt data)) \<and>
      set (map pf_menu_item (get_menu_performance asrt data)) = menu_item ` set data) \<and>
   sorted_wrt (\<lambda>a b. profitability b < profitability a \<or>
                      (profitability a = profitability b \<and> pf_menu_item a < pf_menu_item b))
     (get_menu_performance stable_argsort data)"
proof (intro conjI impI)
  assume v: "valid_argsort asrt"
  show "sorted_wrt (\<lambda>a b. profitability b \<le> profitability a) (get_menu_performance asrt data)"
    by (simp add: get_menu_performance_def sort_values_desc_sorted[OF v])
  show "distinct (map pf_menu_item (get_menu_performance asrt data))"
    by (rule menu_performance_items(1)[OF v])
  show "set (map pf_menu_item (get_menu_performance asrt data)) = menu_item ` set data"
    by (rule menu_performance_items(2)[OF v])
next
  show "sorted_wrt (\<lambda>a b. profitability b < profitability a \<or>
                      (profitability a = profitability b \<and> pf_menu_item a < pf_menu_item b))
     (get_menu_performance stable_argsort data)"
    by (rule menu_performance_stable_ties)
qed

theorem menu_performance_descending_witness:
  "valid_argsort stable_argsort \<and>
   map profitability (get_menu_performance stable_argsort ten_items) =
     [10, 9, 8, 7, 6, 5, 4, 3, 2, 1] \<and>
   sorted_wrt (\<lambda>a b. profitability b \<le> profitability a)
     (get_menu_performance stable_argsort ten_items) \<and>
   sorted_wrt (\<lambda>a b. profitability b < profitability a \<or>
                      (profitability a = profitability b \<and> pf_menu_item a < pf_menu_item b))
     (get_menu_performance stable_argsort twenty_tied)"
proof -
  have "map profitability (get_menu_performance stable_argsort ten_items) =
     [10, 9, 8, 7, 6, 5, 4, 3, 2, 1]"
    by code_simp
  then show ?thesis
    using menu_performance_descending[of stable_argsort ten_items]
      menu_performance_descending[of stable_argsort twenty_tied]
    by (simp add: valid_argsort_stable)
qed

subsection \<open>The recommendations\<close>

lemma rec_type_simps [simp]:
  "rec_type (warning_rec w) = ''warning''"
  "rec_type (info_rec p) = ''info''"
  "rec_item (warning_rec w) = Some (ws_menu_item w)"
  "rec_item (info_rec p) = Some (pf_menu_item p)"
  by (simp_all add: warning_rec_def info_rec_def)

lemma critical_recs_cases:
  "critical_recs p = [] \<or>
   critical_recs p = [\<lparr>rec_type = ''critical'', rec_item = None, rec_percent = Some p\<rparr>]"
  by (simp add: critical_recs_def)

lemma map_rec_type_critical:
  "map rec_type (critical_recs p) = replicate (length (critical_recs p)) ''critical''"
  using critical_recs_cases[of p] by auto

lemma length_critical_recs: "length (critical_recs p) \<le> 1"
  using critical_recs_cases[of p] by auto

text \<open>The list the method returns for a ledger with at least one record.\<close>

lemma generate_recommendations_nonempty:
  "data \<noteq> [] \<Longrightarrow>
   generate_recommendations asrt data =
     Inr (map warning_rec (high_waste_of (get_waste_analysis asrt data)) @
          map info_rec (take 2 (low_performers_of (get_menu_performance asrt data))) @
          critical_recs (waste_ratio data))"
  by (simp add: generate_recommendations_def total_waste_percent_of_def Let_def)

lemma generate_recommendations_empty:
  "generate_recommendations asrt [] = Inl ZeroDivisionError"
  by (simp add: generate_recommendations_def total_waste_percent_of_def Let_def)

lemma filter_info_recs:
  "filter (\<lambda>r. rec_type r = ''info'')
     (map warning_rec ws @ map info_rec ps @ critical_recs p) = map info_rec ps"
proof -
  have "filter (\<lambda>r. rec_type r = ''info'') (critical_recs p) = []"
    using critical_recs_cases[of p] by auto
  then show ?thesis
    by (simp add: filter_map comp_def)
qed

lemma filter_warning_recs:
  "filter (\<lambda>r. rec_type r = ''warning'')
     (map warning_rec ws @ map info_rec ps @ critical_recs p) = map warning_rec ws"
proof -
  have "filter (\<lambda>r. rec_type r = ''warning'') (critical_recs p) = []"
    using critical_recs_cases[of p] by auto
  then show ?thesis
    by (simp add: filter_map comp_def)
qed

lemma filter_critical_recs:
  "filter (\<lambda>r. rec_type r = ''critical'')
     (map warning_rec ws @ map info_rec ps @ critical_recs p) = critical_recs p"
  using critical_recs_cases[of p] by (auto simp: filter_map comp_def)

lemma sorted_low_performers:
  assumes "valid_argsort asrt"
  shows "sorted_wrt (\<lambda>a b. profitability b \<le> profitability a)
           (low_performers_of (get_menu_performance asrt data))"
  unfolding low_performers_of_def
  by (rule sorted_wrt_filter)
     (simp add: get_menu_performance_def sort_values_desc_sorted[OF assms])

text \<open>
  Claim C3, as the specification states it: the info recommendations are the at most two
  items of lowest profitability among those below the 25th percentile. The table of
  \<open>get_menu_performance\<close> is in descending order, the filter keeps that order and
  \<open>head(2)\<close> takes its first two rows. With ten items of profitability 1 to 10 the
  percentile is 3.25; the items below it are c, b and a (3, 2 and 1), and the two
  recommendations are for c and b, not for a, the item of lowest profitability.
\<close>

theorem low_profit_infos_counterexample:
  "map (\<lambda>p. (pf_menu_item p, profitability p))
     (low_performers_of (get_menu_performance stable_argsort ten_items)) =
     [(''c'', 3), (''b'', 2), (''a'', 1)] \<and>
   generate_recommendations stable_argsort ten_items =
     Inr [\<lparr>rec_type = ''info'', rec_item = Some ''c'', rec_percent = None\<rparr>,
          \<lparr>rec_type = ''info'', rec_item = Some ''b'', rec_percent = None\<rparr>]"
proof -
  have "map (\<lambda>p. (pf_menu_item p, profitability p))
     (low_performers_of (get_menu_performance stable_argsort ten_items)) =
     [(''c'', 3), (''b'', 2), (''a'', 1)]"
    by code_simp
  moreover have "generate_recommendations stable_argsort ten_items =
     Inr [\<lparr>rec_type = ''info'', rec_item = Some ''c'', rec_percent = None\<rparr>,
          \<lparr>rec_type = ''info'', rec_item = Some ''b'', rec_percent = None\<rparr>]"
    by code_simp
  ultimately show ?thesis by simp
qed

text \<open>
  Claim C3, amended: for a ledger with at least one record the method returns a list,
  and its info recommendations are, in table order, the first two (or fewer) of the
  items whose profitability is strictly below the 25th percentile of the profitability
  of all items (linear interpolation between order statistics). These are the items of
  highest profitability among the qualifying ones: every qualifying item that gets no
  recommendation has a profitability at most that of every item that gets one.
\<close>

theorem low_profit_infos:
  assumes "valid_argsort asrt" "data \<noteq> []"
  shows "(\<exists>recs. generate_recommendations asrt data = Inr recs \<and>
            filter (\<lambda>r. rec_type r = ''info'') recs =
              map info_rec (take 2 (low_performers_of (get_menu_performance asrt data)))) \<and>
         (\<forall>e \<in> set (take 2 (low_performers_of (get_menu_performance asrt data))).
          \<forall>p \<in> set (drop 2 (low_performers_of (get_menu_performance asrt data))).
            profitability p \<le> profitability e)"
proof -
  let ?lows = "low_performers_of (get_menu_performance asrt data)"
  have "sorted_wrt (\<lambda>a b. profitability b \<le> profitability a) (take 2 ?lows @ drop 2 ?lows)"
    using sorted_low_performers[OF assms(1), of data] by simp
  then have b: "\<forall>e \<in> set (take 2 ?lows). \<forall>p \<in> set (drop 2 ?lows). profitability p \<le> profitability e"
    unfolding sorted_wrt_append by blast
  have "\<exists>recs. generate_recommendations asrt data = Inr recs \<and>
            filter (\<lambda>r. rec_type r = ''info'') recs = map info_rec (take 2 ?lows)"
  proof (intro exI conjI)
    show "generate_recommendations asrt data =
            Inr (map warning_rec (high_waste_of (get_waste_analysis asrt data)) @
                 map info_rec (take 2 ?lows) @ critical_recs (waste_ratio data))"
      by (rule generate_recommendations_nonempty[OF assms(2)])
    show "filter (\<lambda>r. rec_type r = ''info'')
            (map warning_rec (high_waste_of (get_waste_analysis asrt data)) @
             map info_rec (take 2 ?lows) @ critical_recs (waste_ratio data)) =
          map info_rec (take 2 ?lows)"
      by (rule filter_info_recs)
  qed
  with b show ?thesis
    by blast
qed

theorem low_profit_infos_witness:
  "valid_argsort stable_argsort \<and> ten_items \<noteq> [] \<and>
   low_performers_of (get_menu_performance stable_argsort ten_items) ! 0
     \<in> set (take 2 (low_performers_of (get_menu_performance stable_argsort ten_items))) \<and>
   low_performers_of (get_menu_performance stable_argsort ten_items) ! 2
     \<in> set (drop 2 (low_performers_of (get_menu_performance stable_argsort ten_items))) \<and>
   profitability (low_performers_of (get_menu_performance stable_argsort ten_items) ! 2)
     \<le> profitability (low_performers_of (get_menu_performance stable_argsort ten_items) ! 0) \<and>
   (\<exists>recs. generate_recommendations stable_argsort ten_items = Inr recs \<and>
      filter (\<lambda>r. rec_type r = ''info'') recs =
        map info_rec (take 2 (low_performers_of (get_menu_performance stable_argsort ten_items))))"
proof -
  let ?lows = "low_performers_of (get_menu_performance stable_argsort ten_items)"
  have ne: "ten_items \<noteq> []"
    by (simp add: ten_items_def)
  have len: "length ?lows = 3"
    by code_simp
  have "?lows ! 0 = take 2 ?lows ! 0" "0 < length (take 2 ?lows)"
    using len by simp_all
  then have m1: "?lows ! 0 \<in> set (take 2 ?lows)"
    using nth_mem by metis
  have "?lows ! 2 = drop 2 ?lows ! 0" "0 < length (drop 2 ?lows)"
    using len by simp_all
  then have m2: "?lows ! 2 \<in> set (drop 2 ?lows)"
    using nth_mem by metis
  note t = low_profit_infos[OF valid_argsort_stable ne]
  from t m1 m2 have "profitability (?lows ! 2) \<le> profitability (?lows ! 0)"
    by blast
  with t m1 m2 ne show ?thesis
    by (simp add: valid_argsort_stable)
qed

lemma ws_menu_item_waste_row_of [simp]: "ws_menu_item (waste_row_of k g) = k"
  by (simp add: waste_row_of_def Let_def)

lemma set_waste_analysis:
  assumes "valid_argsort asrt"
  shows "set (get_waste_analysis asrt data) =
         (\<lambda>k. waste_row_of k (group_rows menu_item data k)) ` menu_item ` set data"
  by (simp add: get_waste_analysis_def set_sort_values[OF assms] set_group_keys)

lemma distinct_waste_analysis:
  assumes "valid_argsort asrt"
  shows "distinct (map ws_menu_item (get_waste_analysis asrt data))"
  unfolding get_waste_analysis_def Let_def
  by (rule distinct_sort_values[OF assms]) (simp add: comp_def distinct_group_keys)

lemma sorted_high_waste:
  assumes "valid_argsort asrt"
  shows "sorted_wrt (\<lambda>a b. ws_waste_cost b \<le> ws_waste_cost a)
           (high_waste_of (get_waste_analysis asrt data))"
  unfolding high_waste_of_def
  by (rule sorted_wrt_filter)
     (simp add: get_waste_analysis_def sort_values_desc_sorted[OF assms])

text \<open>
  Claim C8: the list of recommendations the method returns (it returns one for every
  ledger with at least one record) is the warnings, then the at most two info
  recommendations, then at most one critical recommendation, with nothing in between.
  The warnings are in the order of the waste table, which is descending by waste cost.
  Each of the three parts is computed from the ledger alone.
\<close>

theorem recommendations_order:
  assumes "valid_argsort asrt" "data \<noteq> []"
  shows "generate_recommendations asrt data =
           Inr (map warning_rec (high_waste_of (get_waste_analysis asrt data)) @
                map info_rec (take 2 (low_performers_of (get_menu_performance asrt data))) @
                critical_recs (waste_ratio data)) \<and>
         map rec_type
           (map warning_rec (high_waste_of (get_waste_analysis asrt data)) @
            map info_rec (take 2 (low_performers_of (get_menu_performance asrt data))) @
            critical_recs (waste_ratio data)) =
           replicate (length (high_waste_of (get_waste_analysis asrt data))) ''warning'' @
           replicate (length (take 2 (low_performers_of (get_menu_performance asrt data)))) ''info'' @
           replicate (length (critical_recs (waste_ratio data))) ''critical'' \<and>
         sorted_wrt (\<lambda>a b. ws_waste_cost b \<le> ws_waste_cost a)
           (high_waste_of (get_waste_analysis asrt data)) \<and>
         length (take 2 (low_performers_of (get_menu_performance asrt data))) \<le> 2 \<and>
         length (critical_recs (waste_ratio data)) \<le> 1"
proof -
  have "map rec_type (map warning_rec ws) = replicate (length ws) ''warning''" for ws
    by (simp add: map_replicate_const comp_def)
  moreover have "map rec_type (map info_rec ps) = replicate (length ps) ''info''" for ps
    by (simp add: map_replicate_const comp_def)
  ultimately show ?thesis
    using sorted_high_waste[OF assms(1), of data] length_critical_recs[of "waste_ratio data"]
    by (simp add: generate_recommendations_nonempty[OF assms(2)] map_rec_type_critical)
qed

theorem recommendations_order_witness:
  "valid_argsort stable_argsort \<and> wasteful \<noteq> [] \<and>
   generate_recommendations stable_argsort wasteful =
     Inr [\<lparr>rec_type = ''warning'', rec_item = Some ''Chips & Chicken'', rec_percent = Some (Fin 80)\<rparr>,
          \<lparr>rec_type = ''warning'', rec_item = Some ''Samosa'', rec_percent = Some (Fin 60)\<rparr>,
          \<lparr>rec_type = ''info'', rec_item = Some ''Samosa'', rec_percent = None\<rparr>,
          \<lparr>rec_type = ''critical'', rec_item = None, rec_percent = Some (Fin (45 / 2))\<rparr>] \<and>
   map ws_waste_cost (high_waste_of (get_waste_analysis stable_argsort wasteful)) = [360, 90] \<and>
   sorted_wrt (\<lambda>a b. ws_waste_cost b \<le> ws_waste_cost a)
     (high_waste_of (get_waste_analysis stable_argsort wasteful))"
proof -
  have ne: "wasteful \<noteq> []"
    by (simp add: wasteful_def)
  have "generate_recommendations stable_argsort wasteful =
     Inr [\<lparr>rec_type = ''warning'', rec_item = Some ''Chips & Chicken'', rec_percent = Some (Fin 80)\<rparr>,
          \<lparr>rec_type = ''warning'', rec_item = Some ''Samosa'', rec_percent = Some (Fin 60)\<rparr>,
          \<lparr>rec_type = ''info'', rec_item = Some ''Samosa'', rec_percent = None\<rparr>,
          \<lparr>rec_type = ''critical'', rec_item = None, rec_percent = Some (Fin (45 / 2))\<rparr>]"
    by code_simp
  moreover have "map ws_waste_cost (high_waste_of (get_waste_analysis stable_argsort wasteful)) = [360, 90]"
    by code_simp
  ultimately show ?thesis
    using recommendations_order[OF valid_argsort_stable ne] ne
    by (simp add: valid_argsort_stable)
qed

text \<open>
  Claim C10: in every row of the menu performance table the five aggregates are the sums
  (and the mean) of the item's records rounded to two decimals, the profitability is the
  rounded revenue minus the rounded waste cost, and the waste percentage is computed
  from the rounded sums.
\<close>

theorem menu_performance_rounding:
  assumes "valid_argsort asrt"
  shows "\<forall>r \<in> set (get_menu_performance asrt data).
           total_sold r = round2 (col_sum (\<lambda>x. of_int (quantity_sold x))
                                    (group_rows menu_item data (pf_menu_item r))) \<and>
           avg_daily_sold r = round2 (col_mean (\<lambda>x. of_int (quantity_sold x))
                                    (group_rows menu_item data (pf_menu_item r))) \<and>
           total_revenue r = round2 (col_sum revenue (group_rows menu_item data (pf_menu_item r))) \<and>
           total_waste r = round2 (col_sum (\<lambda>x. of_int (waste_quantity x))
                                    (group_rows menu_item data (pf_menu_item r))) \<and>
           total_waste_cost r = round2 (col_sum waste_cost
                                    (group_rows menu_item data (pf_menu_item r))) \<and>
           profitability r = total_revenue r - total_waste_cost r \<and>
           waste_percentage r = times100 (np_div (total_waste r) (total_sold r))"
  by (auto simp: set_menu_performance[OF assms] perf_row_of_def Let_def)

theorem menu_performance_rounding_witness:
  "valid_argsort stable_argsort \<and>
   hd (get_menu_performance stable_argsort odd_price) \<in> set (get_menu_performance stable_argsort odd_price) \<and>
   col_sum waste_cost (group_rows menu_item odd_price ''Juice'') = 3003 / 200 \<and>
   total_waste_cost (hd (get_menu_performance stable_argsort odd_price)) = 751 / 50 \<and>
   total_revenue (hd (get_menu_performance stable_argsort odd_price)) = 1001 / 2 \<and>
   profitability (hd (get_menu_performance stable_argsort odd_price)) = 1001 / 2 - 751 / 50"
proof -
  let ?t = "get_menu_performance stable_argsort odd_price"
  have len: "length ?t = 1"
    by code_simp
  then have m: "hd ?t \<in> set ?t"
    by (cases ?t) simp_all
  have it: "pf_menu_item (hd ?t) = ''Juice''"
    by code_simp
  have g: "group_rows menu_item odd_price ''Juice'' = odd_price"
    by (simp add: group_rows_def odd_price_def new_record_def)
  have s1: "col_sum waste_cost odd_price = 3003 / 200"
    by (simp add: col_sum_def odd_price_def new_record_def)
  have s2: "col_sum revenue odd_price = 1001 / 2"
    by (simp add: col_sum_def odd_price_def new_record_def)
  have r1: "round2 (3003 / 200) = 751 / 50"
    by code_simp
  have r2: "round2 (1001 / 2) = 1001 / 2"
    by code_simp
  from menu_performance_rounding[OF valid_argsort_stable, of odd_price] m
  have "total_revenue (hd ?t) = round2 (col_sum revenue (group_rows menu_item odd_price (pf_menu_item (hd ?t))))"
    and "total_waste_cost (hd ?t) = round2 (col_sum waste_cost (group_rows menu_item odd_price (pf_menu_item (hd ?t))))"
    and "profitability (hd ?t) = total_revenue (hd ?t) - total_waste_cost (hd ?t)"
    by blast+
  then show ?thesis
    using m by (simp add: it g s1 s2 r1 r2 valid_argsort_stable)
qed

lemma bex_filter: "(\<exists>r \<in> set xs. P r \<and> Q r) \<longleftrightarrow> (\<exists>r \<in> set (filter P xs). Q r)"
  by auto

lemma warning_for_item_iff:
  assumes "valid_argsort asrt" "w \<in> set (get_waste_analysis asrt data)"
  shows "(\<exists>r \<in> set (map warning_rec (high_waste_of (get_waste_analysis asrt data)) @
                    map info_rec ps @ critical_recs p).
            rec_type r = ''warning'' \<and> rec_item r = Some (ws_menu_item w)) \<longleftrightarrow>
         fgt (ws_waste_percentage w) 15"
proof -
  let ?W = "get_waste_analysis asrt data"
  let ?recs = "map warning_rec (high_waste_of ?W) @ map info_rec ps @ critical_recs p"
  have inj: "inj_on ws_menu_item (set ?W)"
    using distinct_waste_analysis[OF assms(1), of data] by (simp add: distinct_map)
  have "(\<exists>r \<in> set ?recs. rec_type r = ''warning'' \<and> rec_item r = Some (ws_menu_item w)) \<longleftrightarrow>
        (\<exists>r \<in> set (filter (\<lambda>r. rec_type r = ''warning'') ?recs).
            rec_item r = Some (ws_menu_item w))"
    by (rule bex_filter)
  also have "\<dots> \<longleftrightarrow> (\<exists>r \<in> set (map warning_rec (high_waste_of ?W)).
                      rec_item r = Some (ws_menu_item w))"
    by (simp only: filter_warning_recs)
  also have "\<dots> \<longleftrightarrow> (\<exists>w' \<in> set (high_waste_of ?W). ws_menu_item w' = ws_menu_item w)"
    by auto
  also have "\<dots> \<longleftrightarrow> w \<in> set (high_waste_of ?W)"
    using inj assms(2) by (auto simp: high_waste_of_def inj_on_def)
  also have "\<dots> \<longleftrightarrow> fgt (ws_waste_percentage w) 15"
    using assms(2) by (simp add: high_waste_of_def)
  finally show ?thesis .
qed

lemma waste_analysis_nonempty:
  assumes "valid_argsort asrt" "w \<in> set (get_waste_analysis asrt data)"
  shows "data \<noteq> []"
  using assms(2) by (auto simp: set_waste_analysis[OF assms(1)])

text \<open>
  Claim C2, as the specification states it: an item whose summed \<open>quantity_sold\<close> is 0
  has an undefined waste percentage (not infinity) and never gets a high-waste warning,
  even when its summed \<open>waste_quantity\<close> is positive. The code divides the two sums
  without looking at the divisor: for an item that was wasted and never sold the
  quotient is \<open>inf\<close>, which is greater than 15, and the warning is emitted.
\<close>

theorem unsold_item_counterexample:
  "map ws_quantity_sold (get_waste_analysis stable_argsort unsold_item) = [0] \<and>
   map ws_waste_percentage (get_waste_analysis stable_argsort unsold_item) = [PInf] \<and>
   generate_recommendations stable_argsort unsold_item =
     Inr [\<lparr>rec_type = ''warning'', rec_item = Some ''Fruit Salad'', rec_percent = Some PInf\<rparr>,
          \<lparr>rec_type = ''critical'', rec_item = None, rec_percent = Some PInf\<rparr>]"
proof -
  have "map ws_quantity_sold (get_waste_analysis stable_argsort unsold_item) = [0]"
    by code_simp
  moreover have "map ws_waste_percentage (get_waste_analysis stable_argsort unsold_item) = [PInf]"
    by code_simp
  moreover have "generate_recommendations stable_argsort unsold_item =
     Inr [\<lparr>rec_type = ''warning'', rec_item = Some ''Fruit Salad'', rec_percent = Some PInf\<rparr>,
          \<lparr>rec_type = ''critical'', rec_item = None, rec_percent = Some PInf\<rparr>]"
    by code_simp
  ultimately show ?thesis by simp
qed

text \<open>
  Claim C2, amended: no division of the waste table raises. For an item whose summed
  \<open>quantity_sold\<close> is 0 the waste percentage is NaN when its summed \<open>waste_quantity\<close>
  is 0 as well, and plus (minus) infinity when that sum is positive (negative); the
  method returns a list, in which the item has a high-waste warning exactly when its
  summed \<open>waste_quantity\<close> is positive.
\<close>

theorem unsold_item_percentage:
  assumes "valid_argsort asrt"
  shows "\<forall>w \<in> set (get_waste_analysis asrt data).
           ws_quantity_sold w = col_sum (\<lambda>x. of_int (quantity_sold x))
                                  (group_rows menu_item data (ws_menu_item w)) \<and>
           ws_waste_quantity w = col_sum (\<lambda>x. of_int (waste_quantity x))
                                  (group_rows menu_item data (ws_menu_item w)) \<and>
           (ws_quantity_sold w = 0 \<longrightarrow>
              ws_waste_percentage w =
                (if 0 < ws_waste_quantity w then PInf
                 else if ws_waste_quantity w < 0 then NInf else NaN) \<and>
              (\<exists>recs. generate_recommendations asrt data = Inr recs \<and>
                 ((\<exists>r \<in> set recs.
                     rec_type r = ''warning'' \<and> rec_item r = Some (ws_menu_item w)) \<longleftrightarrow>
                  0 < ws_waste_quantity w)))"
proof
  fix w
  assume w: "w \<in> set (get_waste_analysis asrt data)"
  then obtain k where k: "w = waste_row_of k (group_rows menu_item data k)"
    by (auto simp: set_waste_analysis[OF assms])
  have ne: "data \<noteq> []"
    by (rule waste_analysis_nonempty[OF assms w])
  let ?recs = "map warning_rec (high_waste_of (get_waste_analysis asrt data)) @
          map info_rec (take 2 (low_performers_of (get_menu_performance asrt data))) @
          critical_recs (waste_ratio data)"
  have g: "generate_recommendations asrt data = Inr ?recs"
    by (rule generate_recommendations_nonempty[OF ne])
  have pct: "ws_waste_percentage w = times100 (np_div (ws_waste_quantity w) (ws_quantity_sold w))"
    by (simp add: k waste_row_of_def Let_def)
  have z: "ws_waste_percentage w =
             (if 0 < ws_waste_quantity w then PInf
              else if ws_waste_quantity w < 0 then NInf else NaN)"
    if "ws_quantity_sold w = 0"
    using that by (simp add: pct np_div_def)
  have f: "fgt (ws_waste_percentage w) 15 \<longleftrightarrow> 0 < ws_waste_quantity w"
    if "ws_quantity_sold w = 0"
    using z[OF that] by simp
  have i: "(\<exists>r \<in> set ?recs. rec_type r = ''warning'' \<and> rec_item r = Some (ws_menu_item w)) \<longleftrightarrow>
           0 < ws_waste_quantity w"
    if "ws_quantity_sold w = 0"
    using warning_for_item_iff[OF assms w] f[OF that] by simp
  have sums: "ws_quantity_sold w = col_sum (\<lambda>x. of_int (quantity_sold x))
                                  (group_rows menu_item data (ws_menu_item w))"
    "ws_waste_quantity w = col_sum (\<lambda>x. of_int (waste_quantity x))
                                  (group_rows menu_item data (ws_menu_item w))"
    by (simp_all add: k waste_row_of_def Let_def)
  show "ws_quantity_sold w = col_sum (\<lambda>x. of_int (quantity_sold x))
                                  (group_rows menu_item data (ws_menu_item w)) \<and>
           ws_waste_quantity w = col_sum (\<lambda>x. of_int (waste_quantity x))
                                  (group_rows menu_item data (ws_menu_item w)) \<and>
           (ws_quantity_sold w = 0 \<longrightarrow>
              ws_waste_percentage w =
                (if 0 < ws_waste_quantity w then PInf
                 else if ws_waste_quantity w < 0 then NInf else NaN) \<and>
              (\<exists>recs. generate_recommendations asrt data = Inr recs \<and>
                 ((\<exists>r \<in> set recs.
                     rec_type r = ''warning'' \<and> rec_item r = Some (ws_menu_item w)) \<longleftrightarrow>
                  0 < ws_waste_quantity w)))"
    using sums z i g by blast
qed

theorem unsold_item_percentage_witness:
  "valid_argsort stable_argsort \<and>
   hd (get_waste_analysis stable_argsort no_revenue)
     \<in> set (get_waste_analysis stable_argsort no_revenue) \<and>
   ws_quantity_sold (hd (get_waste_analysis stable_argsort no_revenue)) = 0 \<and>
   ws_waste_quantity (hd (get_waste_analysis stable_argsort no_revenue)) = 4 \<and>
   ws_waste_percentage (hd (get_waste_analysis stable_argsort no_revenue)) = PInf \<and>
   (\<exists>recs. generate_recommendations stable_argsort no_revenue = Inr recs \<and>
      (\<exists>r \<in> set recs.
         rec_type r = ''warning'' \<and>
         rec_item r = Some (ws_menu_item (hd (get_waste_analysis stable_argsort no_revenue)))))"
proof -
  let ?t = "get_waste_analysis stable_argsort no_revenue"
  have len: "length ?t = 1"
    by code_simp
  then have m: "hd ?t \<in> set ?t"
    by (cases ?t) simp_all
  have q: "ws_quantity_sold (hd ?t) = 0"
    by code_simp
  have v: "ws_waste_quantity (hd ?t) = 4"
    by code_simp
  from unsold_item_percentage[OF valid_argsort_stable, of no_revenue] m q
  have "ws_waste_percentage (hd ?t) =
          (if 0 < ws_waste_quantity (hd ?t) then PInf
           else if ws_waste_quantity (hd ?t) < 0 then NInf else NaN)"
    and "\<exists>recs. generate_recommendations stable_argsort no_revenue = Inr recs \<and>
           ((\<exists>r \<in> set recs.
              rec_type r = ''warning'' \<and> rec_item r = Some (ws_menu_item (hd ?t))) \<longleftrightarrow>
            0 < ws_waste_quantity (hd ?t))"
    by blast+
  then show ?thesis
    using m q v by (simp add: valid_argsort_stable)
qed

text \<open>
  Claim C7, as the specification states it: with a total revenue of 0 there is no
  critical recommendation, even if the total waste cost is positive. The code computes
  \<open>waste_cost.sum() / revenue.sum() * 100\<close> with no test of the revenue; for a revenue
  of 0 and a positive waste cost this is \<open>inf\<close>, and the critical recommendation is
  emitted.
\<close>

theorem critical_counterexample:
  "col_sum revenue no_revenue = 0 \<and>
   generate_recommendations stable_argsort no_revenue =
     Inr [\<lparr>rec_type = ''warning'', rec_item = Some ''Tea & Mandazi'', rec_percent = Some PInf\<rparr>,
          \<lparr>rec_type = ''critical'', rec_item = None, rec_percent = Some PInf\<rparr>]"
proof -
  have "col_sum revenue no_revenue = 0"
    by (simp add: col_sum_def no_revenue_def new_record_def)
  moreover have "generate_recommendations stable_argsort no_revenue =
     Inr [\<lparr>rec_type = ''warning'', rec_item = Some ''Tea & Mandazi'', rec_percent = Some PInf\<rparr>,
          \<lparr>rec_type = ''critical'', rec_item = None, rec_percent = Some PInf\<rparr>]"
    by code_simp
  ultimately show ?thesis by simp
qed

lemma critical_recs_waste_ratio:
  "critical_recs (waste_ratio data) =
     (if (col_sum revenue data \<noteq> 0 \<and>
          15 < col_sum waste_cost data / col_sum revenue data * 100) \<or>
         (col_sum revenue data = 0 \<and> 0 < col_sum waste_cost data)
      then [\<lparr>rec_type = ''critical'', rec_item = None, rec_percent = Some (waste_ratio data)\<rparr>]
      else [])"
  by (simp add: critical_recs_def waste_ratio_def np_div_def)

text \<open>
  Claim C7, amended: for a ledger with at least one record the returned list has one
  critical recommendation if the total revenue is not 0 and total waste cost / total
  revenue * 100 exceeds 15, or if the total revenue is 0 and the total waste cost is
  positive (the ratio is then infinite); otherwise it has none, in particular none when
  both totals are 0 (the ratio is NaN). For the ledger without records the division is
  \<open>0 / 0\<close> on Python integers: the method raises \<open>ZeroDivisionError\<close> and returns
  nothing.
\<close>

theorem critical_recommendation:
  "(data = [] \<longrightarrow> generate_recommendations asrt data = Inl ZeroDivisionError) \<and>
   (data \<noteq> [] \<longrightarrow>
      (\<exists>recs. generate_recommendations asrt data = Inr recs \<and>
         filter (\<lambda>r. rec_type r = ''critical'') recs =
           (if (col_sum revenue data \<noteq> 0 \<and>
                15 < col_sum waste_cost data / col_sum revenue data * 100) \<or>
               (col_sum revenue data = 0 \<and> 0 < col_sum waste_cost data)
            then [\<lparr>rec_type = ''critical'', rec_item = None,
                   rec_percent = Some (waste_ratio data)\<rparr>]
            else [])))"
proof (intro conjI impI)
  assume "data = []"
  then show "generate_recommendations asrt data = Inl ZeroDivisionError"
    by (simp add: generate_recommendations_empty)
next
  assume ne: "data \<noteq> []"
  show "\<exists>recs. generate_recommendations asrt data = Inr recs \<and>
         filter (\<lambda>r. rec_type r = ''critical'') recs =
           (if (col_sum revenue data \<noteq> 0 \<and>
                15 < col_sum waste_cost data / col_sum revenue data * 100) \<or>
               (col_sum revenue data = 0 \<and> 0 < col_sum waste_cost data)
            then [\<lparr>rec_type = ''critical'', rec_item = None,
                   rec_percent = Some (waste_ratio data)\<rparr>]
            else [])"
  proof (intro exI conjI)
    show "generate_recommendations asrt data =
            Inr (map warning_rec (high_waste_of (get_waste_analysis asrt data)) @
                 map info_rec (take 2 (low_performers_of (get_menu_performance asrt data))) @
                 critical_recs (waste_ratio data))"
      by (rule generate_recommendations_nonempty[OF ne])
    show "filter (\<lambda>r. rec_type r = ''critical'')
            (map warning_rec (high_waste_of (get_waste_analysis asrt data)) @
             map info_rec (take 2 (low_performers_of (get_menu_performance asrt data))) @
             critical_recs (waste_ratio data)) =
          (if (col_sum revenue data \<noteq> 0 \<and>
                15 < col_sum waste_cost data / col_sum revenue data * 100) \<or>
               (col_sum revenue data = 0 \<and> 0 < col_sum waste_cost data)
            then [\<lparr>rec_type = ''critical'', rec_item = None,
                   rec_percent = Some (waste_ratio data)\<rparr>]
            else [])"
      unfolding filter_critical_recs by (rule critical_recs_waste_ratio)
  qed
qed

theorem critical_recommendation_witness:
  "wasteful \<noteq> [] \<and>
   col_sum revenue wasteful = 2000 \<and> col_sum waste_cost wasteful = 450 \<and>
   (\<exists>recs. generate_recommendations stable_argsort wasteful = Inr recs \<and>
      filter (\<lambda>r. rec_type r = ''critical'') recs =
        [\<lparr>rec_type = ''critical'', rec_item = None, rec_percent = Some (Fin (45 / 2))\<rparr>]) \<and>
   generate_recommendations stable_argsort [] = Inl ZeroDivisionError"
proof -
  have ne: "wasteful \<noteq> []"
    by (simp add: wasteful_def)
  have r: "col_sum revenue wasteful = 2000"
    by (simp add: col_sum_def wasteful_def new_record_def)
  have c: "col_sum waste_cost wasteful = 450"
    by (simp add: col_sum_def wasteful_def new_record_def)
  have w: "waste_ratio wasteful = Fin (45 / 2)"
    by (simp add: waste_ratio_def r c np_div_def)
  show ?thesis
    using critical_recommendation[of wasteful stable_argsort]
      critical_recommendation[of "[]" stable_argsort] ne
    by (simp add: r c w)
qed

subsection \<open>The forecast, the empty ledger and the clock\<close>

lemma timedelta_in_range:
  "- 999999999 \<le> d \<Longrightarrow> d \<le> 999999999 \<Longrightarrow> timedelta d = Inr (timedelta_days d)"
  by (simp add: timedelta_def)

lemma date_cutoff_30:
  "date_cutoff clock 30 =
     (if in_calendar (clock 0 - timedelta_days 30) then Inr (clock 0 - timedelta_days 30)
      else Inl OverflowError)"
  by (simp add: date_cutoff_def timedelta_def datetime_add_def)

lemma forecast_date_at_in_range:
  assumes "int i + 1 \<le> 999999999" "in_calendar (clock (i + 1) + timedelta_days (int i + 1))"
  shows "forecast_date_at clock i = Inr (clock (i + 1) + timedelta_days (int i + 1))"
  using assms by (simp add: forecast_date_at_def timedelta_def datetime_add_def)

lemma forecast_loop_finite:
  assumes "\<forall>k. i \<le> k \<and> k < i + n \<longrightarrow>
             int k + 1 \<le> 999999999 \<and> in_calendar (clock (k + 1) + timedelta_days (int k + 1))"
  shows "forecast_loop clock (Fin m) n i acc =
     Inr (acc @ map (forecast_row_at clock (if 0 \<le> m then \<lfloor>m\<rfloor> else \<lceil>m\<rceil>)) [i..<i + n])"
  using assms
proof (induction n arbitrary: i acc)
  case 0
  then show ?case by simp
next
  case (Suc n)
  have d: "forecast_date_at clock i = Inr (clock (i + 1) + timedelta_days (int i + 1))"
    by (rule forecast_date_at_in_range) (use Suc.prems in simp_all)
  have u: "[i..<i + Suc n] = i # [i + 1..<i + 1 + n]"
    by (simp add: upt_rec)
  have "forecast_loop clock (Fin m) n (i + 1) acc' =
     Inr (acc' @ map (forecast_row_at clock (if 0 \<le> m then \<lfloor>m\<rfloor> else \<lceil>m\<rceil>))
            [i + 1..<i + 1 + n])" for acc'
    by (rule Suc.IH) (use Suc.prems in simp)
  then show ?case
    unfolding u by (simp add: d forecast_row_at_def)
qed

lemma forecast_loop_nan:
  "forecast_loop clock NaN n i acc =
     (if n = 0 then Inr acc
      else case forecast_date_at clock i of Inl e \<Rightarrow> Inl e | Inr d \<Rightarrow> Inl ValueError)"
  by (cases n) (simp_all split: sum.splits)

lemma forecast_date_at_cong:
  "clock1 (i + 1) = clock2 (i + 1) \<Longrightarrow> forecast_date_at clock1 i = forecast_date_at clock2 i"
  by (simp only: forecast_date_at_def)

lemma forecast_loop_clock_cong:
  "(\<forall>k. i < k \<and> k \<le> i + n \<longrightarrow> clock1 k = clock2 k) \<Longrightarrow>
   forecast_loop clock1 fv n i acc = forecast_loop clock2 fv n i acc"
proof (induction n arbitrary: i acc)
  case 0
  then show ?case by simp
next
  case (Suc n)
  have c: "forecast_date_at clock1 i = forecast_date_at clock2 i"
    by (rule forecast_date_at_cong) (use Suc.prems in simp)
  have "forecast_loop clock1 fv n (i + 1) acc' = forecast_loop clock2 fv n (i + 1) acc'" for acc'
    by (rule Suc.IH) (use Suc.prems in simp)
  then show ?case
    by (simp add: c split: sum.splits)
qed

lemma date_cutoff_cong: "clock1 0 = clock2 0 \<Longrightarrow> date_cutoff clock1 d = date_cutoff clock2 d"
  by (simp only: date_cutoff_def)

lemma daily_totals_nonempty:
  assumes "rows \<noteq> []"
  shows "daily_totals_of rows \<noteq> []"
proof -
  have "set (group_keys date rows) \<noteq> {}"
    using assms by (simp add: set_group_keys)
  then show ?thesis
    by (auto simp: daily_totals_of_def)
qed

lemma tail_nonempty: "xs \<noteq> [] \<Longrightarrow> 0 < n \<Longrightarrow> tail n xs \<noteq> []"
  by (cases xs) (auto simp: tail_def)

lemma in_calendar_between:
  "in_calendar a \<Longrightarrow> in_calendar b \<Longrightarrow> a \<le> t \<Longrightarrow> t \<le> b \<Longrightarrow> in_calendar t"
  by (simp add: in_calendar_def)

text \<open>
  Claim C9, as the specification states it: in general the output has \<open>horizonDays\<close>
  entries. When no record lies in the trailing thirty days the mean of the daily totals
  is NaN and \<open>int(forecast_value)\<close> raises in the first iteration: there is no output.
\<close>

theorem forecast_empty_history_counterexample:
  "forecast_demand (\<lambda>k. now0) stale_ledger 1 = Inl ValueError"
  by (simp add: forecast_demand_def date_cutoff_30 in_calendar_def datetime_min_def
      datetime_max_def stale_ledger_def new_record_def now0_def timedelta_days_def
      daily_totals_of_def group_keys_def tail_def series_mean_def forecast_date_at_def
      timedelta_def datetime_add_def)

text \<open>
  Claim C9, amended. All dates are taken to lie in the range of \<open>datetime\<close>: the date
  thirty days before the first clock reading and the dates of the forecast. When at
  least one record lies in the trailing thirty days, the forecast has
  \<open>max(horizonDays, 0)\<close> rows; row \<open>i\<close> (from 0) is dated \<open>i + 1\<close> days after the clock
  reading of its iteration, carries the weekday name of that date, and every row
  carries the same value, the mean of the last (at most seven) daily totals truncated
  towards zero. With the clock fixed at \<open>now\<close> and the daily totals 10, 20, ..., 70,
  \<open>forecast_demand(7)\<close> is seven rows of 40, dated the seven days after \<open>now\<close>. When no
  record lies in the trailing thirty days and \<open>horizonDays\<close> is positive, the method
  raises \<open>ValueError\<close> and returns nothing.
\<close>

theorem forecast_rows:
  "(in_calendar (clock 0 - timedelta_days 30) \<and>
    filter (\<lambda>r. clock 0 - timedelta_days 30 \<le> date r) data \<noteq> [] \<and>
    days \<le> 999999999 \<and>
    (\<forall>i. i < nat days \<longrightarrow> in_calendar (clock (i + 1) + timedelta_days (int i + 1))) \<longrightarrow>
      (\<exists>m. series_mean (tail 7 (daily_totals_of
                (filter (\<lambda>r. clock 0 - timedelta_days 30 \<le> date r) data))) = Fin m \<and>
           forecast_demand clock data days =
             Inr (map (forecast_row_at clock (if 0 \<le> m then \<lfloor>m\<rfloor> else \<lceil>m\<rceil>))
                      [0..<nat days]))) \<and>
   (in_calendar (now - timedelta_days 30) \<and> in_calendar (now + timedelta_days 7) \<and>
    (\<forall>k. clock k = now) \<and>
    daily_totals_of (filter (\<lambda>r. now - timedelta_days 30 \<le> date r) data) =
      [10, 20, 30, 40, 50, 60, 70] \<longrightarrow>
    forecast_demand clock data 7 =
      Inr (map (\<lambda>i. \<lparr>fc_date = now + timedelta_days i, forecasted_demand = 40,
                       fc_day_of_week = strftime_A (now + timedelta_days i)\<rparr>)
               [1, 2, 3, 4, 5, 6, 7])) \<and>
   (in_calendar (clock 0 - timedelta_days 30) \<and>
    filter (\<lambda>r. clock 0 - timedelta_days 30 \<le> date r) data = [] \<and>
    0 < days \<and> in_calendar (clock 1 + timedelta_days 1) \<longrightarrow>
    forecast_demand clock data days = Inl ValueError)"
proof (intro conjI impI)
  let ?recent = "filter (\<lambda>r. clock 0 - timedelta_days 30 \<le> date r) data"
  assume a: "in_calendar (clock 0 - timedelta_days 30) \<and> ?recent \<noteq> [] \<and>
    days \<le> 999999999 \<and>
    (\<forall>i. i < nat days \<longrightarrow> in_calendar (clock (i + 1) + timedelta_days (int i + 1)))"
  then have "tail 7 (daily_totals_of ?recent) \<noteq> []"
    by (simp add: daily_totals_nonempty tail_nonempty)
  then obtain m where m: "series_mean (tail 7 (daily_totals_of ?recent)) = Fin m"
    by (simp add: series_mean_def)
  have r: "\<forall>k. 0 \<le> k \<and> k < 0 + nat days \<longrightarrow>
             int k + 1 \<le> 999999999 \<and> in_calendar (clock (k + 1) + timedelta_days (int k + 1))"
    using a by auto
  have "forecast_demand clock data days =
          Inr (map (forecast_row_at clock (if 0 \<le> m then \<lfloor>m\<rfloor> else \<lceil>m\<rceil>)) [0..<nat days])"
    using forecast_loop_finite[OF r, of m "[]"] a
    by (simp add: forecast_demand_def date_cutoff_30 Let_def m)
  with m show "\<exists>m. series_mean (tail 7 (daily_totals_of ?recent)) = Fin m \<and>
           forecast_demand clock data days =
             Inr (map (forecast_row_at clock (if 0 \<le> m then \<lfloor>m\<rfloor> else \<lceil>m\<rceil>))
                      [0..<nat days])"
    by blast
next
  assume a: "in_calendar (now - timedelta_days 30) \<and> in_calendar (now + timedelta_days 7) \<and>
    (\<forall>k. clock k = now) \<and>
    daily_totals_of (filter (\<lambda>r. now - timedelta_days 30 \<le> date r) data) =
      [10, 20, 30, 40, 50, 60, 70]"
  then have c: "clock k = now" for k
    by blast
  have lo: "in_calendar (now - timedelta_days 30)" and hi: "in_calendar (now + timedelta_days 7)"
    using a by blast+
  have d: "daily_totals_of (filter (\<lambda>r. now - timedelta_days 30 \<le> date r) data) =
      [10, 20, 30, 40, 50, 60, 70]"
    using a by blast
  have m: "series_mean (tail 7 (daily_totals_of
             (filter (\<lambda>r. now - timedelta_days 30 \<le> date r) data))) = Fin 40"
    unfolding d by (simp add: series_mean_def tail_def)
  have r: "\<forall>k. 0 \<le> k \<and> k < 0 + 7 \<longrightarrow>
             int k + 1 \<le> 999999999 \<and> in_calendar (clock (k + 1) + timedelta_days (int k + 1))"
  proof (intro allI impI)
    fix k :: nat
    assume "0 \<le> k \<and> k < 0 + 7"
    then have k: "k < 7" by simp
    have "in_calendar (now + timedelta_days (int k + 1))"
      by (rule in_calendar_between[OF lo hi]) (use k in \<open>simp_all add: timedelta_days_def\<close>)
    then show "int k + 1 \<le> 999999999 \<and> in_calendar (clock (k + 1) + timedelta_days (int k + 1))"
      using k by (simp add: c)
  qed
  have u: "[0..<7] = [0, 1, 2, 3, 4, 5, 6::nat]"
    by (simp add: upt_rec)
  have fl: "forecast_loop clock (Fin 40) 7 0 [] = Inr (map (forecast_row_at clock 40) [0..<7])"
    using forecast_loop_finite[OF r, of 40 "[]"] by simp
  have cut: "date_cutoff clock 30 = Inr (now - timedelta_days 30)"
    using lo by (simp add: date_cutoff_30 c)
  have "forecast_demand clock data 7 = Inr (map (forecast_row_at clock 40) [0..<7])"
    by (simp add: forecast_demand_def cut Let_def m fl)
  then show "forecast_demand clock data 7 =
      Inr (map (\<lambda>i. \<lparr>fc_date = now + timedelta_days i, forecasted_demand = 40,
                       fc_day_of_week = strftime_A (now + timedelta_days i)\<rparr>)
               [1, 2, 3, 4, 5, 6, 7])"
    by (simp add: u forecast_row_at_def c)
next
  let ?recent = "filter (\<lambda>r. clock 0 - timedelta_days 30 \<le> date r) data"
  assume a: "in_calendar (clock 0 - timedelta_days 30) \<and> ?recent = [] \<and>
    0 < days \<and> in_calendar (clock 1 + timedelta_days 1)"
  then have e: "?recent = []"
    by blast
  have n: "series_mean (tail 7 (daily_totals_of [])) = NaN"
    by (simp add: daily_totals_of_def group_keys_def tail_def series_mean_def)
  have d: "forecast_date_at clock 0 = Inr (clock 1 + timedelta_days 1)"
    using forecast_date_at_in_range[of 0 clock] a by simp
  have c: "date_cutoff clock 30 = Inr (clock 0 - timedelta_days 30)"
    using a by (simp add: date_cutoff_30)
  have l: "forecast_loop clock NaN (nat days) 0 [] = Inl ValueError"
    using a by (simp add: forecast_loop_nan d)
  show "forecast_demand clock data days = Inl ValueError"
    by (simp add: forecast_demand_def c Let_def e n l)
qed

theorem forecast_rows_witness:
  "in_calendar (now0 - timedelta_days 30) \<and> in_calendar (now0 + timedelta_days 7) \<and>
   daily_totals_of (filter (\<lambda>r. now0 - timedelta_days 30 \<le> date r) seven_days) =
     [10, 20, 30, 40, 50, 60, 70] \<and>
   forecast_demand (\<lambda>k. now0) seven_days 7 =
     Inr [\<lparr>fc_date = 1762300800000000, forecasted_demand = 40, fc_day_of_week = ''Wednesday''\<rparr>,
          \<lparr>fc_date = 1762387200000000, forecasted_demand = 40, fc_day_of_week = ''Thursday''\<rparr>,
          \<lparr>fc_date = 1762473600000000, forecasted_demand = 40, fc_day_of_week = ''Friday''\<rparr>,
          \<lparr>fc_date = 1762560000000000, forecasted_demand = 40, fc_day_of_week = ''Saturday''\<rparr>,
          \<lparr>fc_date = 1762646400000000, forecasted_demand = 40, fc_day_of_week = ''Sunday''\<rparr>,
          \<lparr>fc_date = 1762732800000000, forecasted_demand = 40, fc_day_of_week = ''Monday''\<rparr>,
          \<lparr>fc_date = 1762819200000000, forecasted_demand = 40, fc_day_of_week = ''Tuesday''\<rparr>] \<and>
   filter (\<lambda>r. now0 - timedelta_days 30 \<le> date r) stale_ledger = [] \<and>
   in_calendar (now0 + timedelta_days 1) \<and>
   forecast_demand (\<lambda>k. now0) stale_ledger 7 = Inl ValueError"
proof -
  have lo: "in_calendar (now0 - timedelta_days 30)"
    by (simp add: in_calendar_def datetime_min_def datetime_max_def now0_def timedelta_days_def)
  have hi: "in_calendar (now0 + timedelta_days 7)"
    by (simp add: in_calendar_def datetime_min_def datetime_max_def now0_def timedelta_days_def)
  have h1: "in_calendar (now0 + timedelta_days 1)"
    by (simp add: in_calendar_def datetime_min_def datetime_max_def now0_def timedelta_days_def)
  have f: "filter (\<lambda>r. now0 - timedelta_days 30 \<le> date r) seven_days = seven_days"
    by (simp add: seven_days_def new_record_def now0_def timedelta_days_def)
  have s: "filter (\<lambda>r. now0 - timedelta_days 30 \<le> date r) stale_ledger = []"
    by (simp add: stale_ledger_def new_record_def now0_def timedelta_days_def)
  have d: "daily_totals_of seven_days = [10, 20, 30, 40, 50, 60, 70]"
    by code_simp
  have e: "map (\<lambda>i. \<lparr>fc_date = now0 + timedelta_days i, forecasted_demand = 40,
                       fc_day_of_week = strftime_A (now0 + timedelta_days i)\<rparr>)
               [1, 2, 3, 4, 5, 6, 7] =
         [\<lparr>fc_date = 1762300800000000, forecasted_demand = 40, fc_day_of_week = ''Wednesday''\<rparr>,
          \<lparr>fc_date = 1762387200000000, forecasted_demand = 40, fc_day_of_week = ''Thursday''\<rparr>,
          \<lparr>fc_date = 1762473600000000, forecasted_demand = 40, fc_day_of_week = ''Friday''\<rparr>,
          \<lparr>fc_date = 1762560000000000, forecasted_demand = 40, fc_day_of_week = ''Saturday''\<rparr>,
          \<lparr>fc_date = 1762646400000000, forecasted_demand = 40, fc_day_of_week = ''Sunday''\<rparr>,
          \<lparr>fc_date = 1762732800000000, forecasted_demand = 40, fc_day_of_week = ''Monday''\<rparr>,
          \<lparr>fc_date = 1762819200000000, forecasted_demand = 40, fc_day_of_week = ''Tuesday''\<rparr>]"
    by code_simp
  have "forecast_demand (\<lambda>k. now0) seven_days 7 =
      Inr (map (\<lambda>i. \<lparr>fc_date = now0 + timedelta_days i, forecasted_demand = 40,
                       fc_day_of_week = strftime_A (now0 + timedelta_days i)\<rparr>)
               [1, 2, 3, 4, 5, 6, 7])"
    using forecast_rows[of "\<lambda>k. now0" seven_days 7 now0] lo hi by (simp add: f d)
  then have 1: "forecast_demand (\<lambda>k. now0) seven_days 7 =
         Inr [\<lparr>fc_date = 1762300800000000, forecasted_demand = 40, fc_day_of_week = ''Wednesday''\<rparr>,
          \<lparr>fc_date = 1762387200000000, forecasted_demand = 40, fc_day_of_week = ''Thursday''\<rparr>,
          \<lparr>fc_date = 1762473600000000, forecasted_demand = 40, fc_day_of_week = ''Friday''\<rparr>,
          \<lparr>fc_date = 1762560000000000, forecasted_demand = 40, fc_day_of_week = ''Saturday''\<rparr>,
          \<lparr>fc_date = 1762646400000000, forecasted_demand = 40, fc_day_of_week = ''Sunday''\<rparr>,
          \<lparr>fc_date = 1762732800000000, forecasted_demand = 40, fc_day_of_week = ''Monday''\<rparr>,
          \<lparr>fc_date = 1762819200000000, forecasted_demand = 40, fc_day_of_week = ''Tuesday''\<rparr>]"
    by (simp only: e)
  have 2: "forecast_demand (\<lambda>k. now0) stale_ledger 7 = Inl ValueError"
    using forecast_rows[of "\<lambda>k. now0" stale_ledger 7 now0] lo h1 by (simp add: s)
  show ?thesis
    using lo hi h1 1 2 by (simp only: f d s simp_thms)
qed

text \<open>
  Claim C4, as the specification states it: on an empty ledger no method raises, and
  \<open>forecast_demand\<close> returns \<open>horizonDays\<close> rows with a forecast of 0. The mean of no
  daily totals is NaN, and \<open>int\<close> of NaN raises \<open>ValueError\<close>; and the totals of the table
  without rows are Python integers, so that \<open>generate_recommendations\<close> divides 0 by 0
  and raises \<open>ZeroDivisionError\<close>.
\<close>

theorem empty_ledger_forecast_counterexample:
  "forecast_demand (\<lambda>k. now0) [] 7 = Inl ValueError \<and>
   generate_recommendations stable_argsort [] = Inl ZeroDivisionError"
  by (simp add: forecast_demand_def date_cutoff_30 in_calendar_def datetime_min_def
      datetime_max_def now0_def timedelta_days_def daily_totals_of_def group_keys_def
      tail_def series_mean_def forecast_loop_nan forecast_date_at_def timedelta_def
      datetime_add_def generate_recommendations_empty)

text \<open>
  Claim C4, amended: on an empty ledger \<open>get_menu_performance\<close>, \<open>get_daily_patterns\<close>
  and \<open>get_waste_analysis\<close> return an empty table, and so does \<open>get_sales_trends\<close>
  when the start of the period is a date in the range of \<open>datetime\<close> (it raises
  \<open>OverflowError\<close> otherwise). \<open>generate_recommendations\<close> raises \<open>ZeroDivisionError\<close>.
  \<open>forecast_demand\<close> returns the empty table when \<open>days\<close> is at most 0 and raises for
  every positive \<open>days\<close>: \<open>ValueError\<close> when its dates are in range.
\<close>

theorem empty_ledger:
  assumes "valid_argsort asrt"
  shows "get_sales_trends clock [] period_days =
           (case date_cutoff clock period_days of Inl e \<Rightarrow> Inl e | Inr c \<Rightarrow> Inr []) \<and>
         get_menu_performance asrt [] = [] \<and>
         get_daily_patterns [] = [] \<and>
         get_waste_analysis asrt [] = [] \<and>
         generate_recommendations asrt [] = Inl ZeroDivisionError \<and>
         forecast_demand clock [] days =
           (case date_cutoff clock 30 of
              Inl e \<Rightarrow> Inl e
            | Inr c \<Rightarrow>
                if days \<le> 0 then Inr []
                else (case forecast_date_at clock 0 of
                        Inl e \<Rightarrow> Inl e
                      | Inr d \<Rightarrow> Inl ValueError))"
proof -
  have s: "sort_values asrt key False [] = []" for key :: "'r \<Rightarrow> rat"
    using length_sort_values[OF assms, of key False "[]"] by simp
  have p: "get_menu_performance asrt [] = []"
    by (simp add: get_menu_performance_def group_keys_def s)
  have w: "get_waste_analysis asrt [] = []"
    by (simp add: get_waste_analysis_def group_keys_def s)
  have t: "get_sales_trends clock [] period_days =
           (case date_cutoff clock period_days of Inl e \<Rightarrow> Inl e | Inr c \<Rightarrow> Inr [])"
    by (simp add: get_sales_trends_def group_keys_def split: sum.splits)
  have f: "forecast_demand clock [] days =
           (case date_cutoff clock 30 of
              Inl e \<Rightarrow> Inl e
            | Inr c \<Rightarrow>
                if days \<le> 0 then Inr []
                else (case forecast_date_at clock 0 of
                        Inl e \<Rightarrow> Inl e
                      | Inr d \<Rightarrow> Inl ValueError))"
    by (simp add: forecast_demand_def daily_totals_of_def group_keys_def tail_def
        series_mean_def forecast_loop_nan split: sum.splits)
  show ?thesis
    using p w t f
    by (simp add: generate_recommendations_empty get_daily_patterns_def group_keys_def)
qed

theorem empty_ledger_witness:
  "valid_argsort stable_argsort \<and>
   get_sales_trends (\<lambda>k. now0) [] 30 = Inr [] \<and>
   get_sales_trends (\<lambda>k. now0) [] 1000000000 = Inl OverflowError \<and>
   get_menu_performance stable_argsort [] = [] \<and>
   get_daily_patterns [] = [] \<and>
   get_waste_analysis stable_argsort [] = [] \<and>
   generate_recommendations stable_argsort [] = Inl ZeroDivisionError \<and>
   forecast_demand (\<lambda>k. now0) [] 0 = Inr [] \<and>
   forecast_demand (\<lambda>k. now0) [] 7 = Inl ValueError"
proof -
  have c30: "date_cutoff (\<lambda>k. now0) 30 = Inr (now0 - timedelta_days 30)"
    by (simp add: date_cutoff_30 in_calendar_def datetime_min_def datetime_max_def now0_def
        timedelta_days_def)
  have cbig: "date_cutoff (\<lambda>k. now0) 1000000000 = Inl OverflowError"
    by (simp add: date_cutoff_def timedelta_def)
  have d0: "forecast_date_at (\<lambda>k. now0) 0 = Inr (now0 + timedelta_days 1)"
    by (simp add: forecast_date_at_def timedelta_def datetime_add_def in_calendar_def
        datetime_min_def datetime_max_def now0_def timedelta_days_def)
  show ?thesis
    using empty_ledger[OF valid_argsort_stable, of "\<lambda>k. now0" 30 0]
      empty_ledger[OF valid_argsort_stable, of "\<lambda>k. now0" 1000000000 7]
    by (simp add: valid_argsort_stable c30 cbig d0)
qed

text \<open>
  Claim C6, as the specification states it: two runs with the same ledger and
  parameters and different clock readings give the same sales trend. The methods take no
  reference instant: \<open>get_sales_trends\<close> and \<open>forecast_demand\<close> call \<open>datetime.now()\<close>.
  A record sixty days old is outside the thirty-day period at one reading of the clock
  and inside it at a reading forty days earlier.
\<close>

theorem clock_counterexample:
  "call_method stable_argsort (\<lambda>k. now0) stale_ledger (Get_sales_trends 30) \<noteq>
   call_method stable_argsort (\<lambda>k. now0 - timedelta_days 40) stale_ledger (Get_sales_trends 30)"
  by (simp add: get_sales_trends_def date_cutoff_def timedelta_def datetime_add_def
      in_calendar_def datetime_min_def datetime_max_def stale_ledger_def new_record_def
      now0_def timedelta_days_def group_keys_def)

text \<open>
  Claim C6, amended: \<open>generate_recommendations\<close>, \<open>get_menu_performance\<close>,
  \<open>get_daily_patterns\<close> and \<open>get_waste_analysis\<close> do not read the clock; their result is
  the same whatever the clock shows. \<open>get_sales_trends\<close> and \<open>forecast_demand\<close> read the
  system clock, and their result is a function of the ledger, the parameter and the
  readings they take: one for \<open>get_sales_trends\<close>, one and one more per row for
  \<open>forecast_demand\<close>. Two runs that agree on these readings give the same result.
\<close>

theorem clock_dependence:
  "call_method asrt clock1 data Generate_recommendations =
     call_method asrt clock2 data Generate_recommendations \<and>
   call_method asrt clock1 data Get_menu_performance =
     call_method asrt clock2 data Get_menu_performance \<and>
   call_method asrt clock1 data Get_daily_patterns =
     call_method asrt clock2 data Get_daily_patterns \<and>
   call_method asrt clock1 data Get_waste_analysis =
     call_method asrt clock2 data Get_waste_analysis \<and>
   (clock1 0 = clock2 0 \<longrightarrow>
      call_method asrt clock1 data (Get_sales_trends period_days) =
      call_method asrt clock2 data (Get_sales_trends period_days)) \<and>
   ((\<forall>k. k \<le> nat days \<longrightarrow> clock1 k = clock2 k) \<longrightarrow>
      call_method asrt clock1 data (Forecast_demand days) =
      call_method asrt clock2 data (Forecast_demand days))"
proof -
  have "forecast_demand clock1 data days = forecast_demand clock2 data days"
    if h: "\<forall>k. k \<le> nat days \<longrightarrow> clock1 k = clock2 k"
  proof -
    have 0: "date_cutoff clock1 30 = date_cutoff clock2 30"
      by (rule date_cutoff_cong) (use h in simp)
    have l: "forecast_loop clock1 fv (nat days) 0 [] = forecast_loop clock2 fv (nat days) 0 []" for fv
      by (rule forecast_loop_clock_cong) (use h in simp)
    show ?thesis
      unfolding forecast_demand_def Let_def 0 l ..
  qed
  moreover have "get_sales_trends clock1 data period_days = get_sales_trends clock2 data period_days"
    if "clock1 0 = clock2 0"
    unfolding get_sales_trends_def date_cutoff_cong[of clock1 clock2, OF that] ..
  ultimately show ?thesis
    by simp
qed

theorem clock_dependence_witness:
  "(\<lambda>k. now0) 0 = (\<lambda>k::nat. if k \<le> 7 then now0 else now0 + 1) 0 \<and>
   (\<lambda>k. now0) 8 \<noteq> (\<lambda>k::nat. if k \<le> 7 then now0 else now0 + 1) 8 \<and>
   call_method stable_argsort (\<lambda>k. now0) seven_days (Get_sales_trends 30) =
   call_method stable_argsort (\<lambda>k. if k \<le> 7 then now0 else now0 + 1) seven_days
     (Get_sales_trends 30) \<and>
   call_method stable_argsort (\<lambda>k. now0) seven_days (Forecast_demand 7) =
   call_method stable_argsort (\<lambda>k. if k \<le> 7 then now0 else now0 + 1) seven_days
     (Forecast_demand 7) \<and>
   call_method stable_argsort (\<lambda>k. now0) seven_days Generate_recommendations =
   call_method stable_argsort (\<lambda>k. now0 + 1) seven_days Generate_recommendations"
  using clock_dependence[of stable_argsort "\<lambda>k. now0" seven_days
      "\<lambda>k. if k \<le> 7 then now0 else now0 + 1" 30 7]
    clock_dependence[of stable_argsort "\<lambda>k. now0" seven_days "\<lambda>k. now0 + 1" 30 7]
  by simp

end
